theory Spec2Isabelle
  imports Main "HOL-Library.AList" "HOL-Library.Sublist"
begin

section \<open>Values, documents and rows\<close>

text \<open>
  The driver of \<^verbatim>\<open>src/drivers/PostgreSQLDriver.ts\<close> handles flat documents
  (\<^verbatim>\<open>Data\<close>), equality criteria (\<^verbatim>\<open>Query\<close>) and database rows. A field value is
  a JSON value or, for the cells of the timestamp columns and the clock readings of the
  driver, a \<^verbatim>\<open>Date\<close> object. Numbers are integers here: no function of the driver
  computes with them. A missing property (\<^verbatim>\<open>undefined\<close>) is \<open>None\<close> of a lookup.

  A JavaScript object is an association list in insertion order; writing a property is
  \<open>AList.update\<close> (an existing key keeps its place, a new key goes to the end).
  The engine's placing of integer-like keys first is not modelled.
\<close>

datatype json =
    JNull
  | JBool bool
  | JNum int
  | JStr string
  | JArr "json list"
  | JObj "(string \<times> json) list"

text \<open>A \<^verbatim>\<open>Date\<close> object, as the two things the driver reads from it.\<close>

datatype date = Date (epoch_ms: nat) (toISOString: string)

datatype jv = J json | JDate date

type_synonym Data = "(string \<times> jv) list"
type_synonym Query = "(string \<times> json) list"
type_synonym row = "(string \<times> jv) list"

datatype error = NotConnected | SyntaxError | QueryFailed | TypeError

subsection \<open>Runtime functions the driver calls\<close>

text \<open>Decimal text of a natural number and of an integer (template literals, \<^verbatim>\<open>String\<close>).\<close>

definition digit_char :: "nat \<Rightarrow> char" where
  "digit_char d = ''0123456789'' ! d"

fun show_nat :: "nat \<Rightarrow> string" where
  "show_nat n = (if n < 10 then [digit_char n] else show_nat (n div 10) @ [digit_char (n mod 10)])"

declare show_nat.simps [simp del]

definition show_int :: "int \<Rightarrow> string" where
  "show_int i = (if i < 0 then CHR ''-'' # show_nat (nat (- i)) else show_nat (nat i))"

text \<open>\<^verbatim>\<open>s.includes(p)\<close>: \<open>p\<close> occurs in \<open>s\<close> as a contiguous piece.\<close>

fun str_includes :: "string \<Rightarrow> string \<Rightarrow> bool" where
  "str_includes [] p = (p = [])"
| "str_includes (c # cs) p = (prefix p (c # cs) \<or> str_includes cs p)"

text \<open>\<^verbatim>\<open>toUpperCase\<close> on ASCII letters; any other character is kept.\<close>

definition upper_char :: "char \<Rightarrow> char" where
  "upper_char c =
     (case map_of (zip ''abcdefghijklmnopqrstuvwxyz'' ''ABCDEFGHIJKLMNOPQRSTUVWXYZ'') c of
        Some u \<Rightarrow> u
      | None \<Rightarrow> c)"

definition toUpperCase :: "string \<Rightarrow> string" where
  "toUpperCase s = map upper_char s"

text \<open>Truthiness of a value that may be missing.\<close>

fun truthy_json :: "json \<Rightarrow> bool" where
  "truthy_json JNull = False"
| "truthy_json (JBool b) = b"
| "truthy_json (JNum n) = (n \<noteq> 0)"
| "truthy_json (JStr s) = (s \<noteq> [])"
| "truthy_json (JArr xs) = True"
| "truthy_json (JObj kvs) = True"

fun truthy :: "json option \<Rightarrow> bool" where
  "truthy None = False"
| "truthy (Some v) = truthy_json v"

text \<open>
  \<^verbatim>\<open>String(v)\<close>. An array is its elements joined by commas, \<^verbatim>\<open>null\<close> elements
  empty; a plain object is \<^verbatim>\<open>[object Object]\<close>.
\<close>

fun join_comma :: "string list \<Rightarrow> string" where
  "join_comma [] = []"
| "join_comma [s] = s"
| "join_comma (s # t # ss) = s @ '','' @ join_comma (t # ss)"

fun js_String :: "json \<Rightarrow> string" where
  "js_String JNull = ''null''"
| "js_String (JBool b) = (if b then ''true'' else ''false'')"
| "js_String (JNum n) = show_int n"
| "js_String (JStr s) = s"
| "js_String (JArr xs) = join_comma (map (\<lambda>x. if x = JNull then [] else js_String x) xs)"
| "js_String (JObj kvs) = ''[object Object]''"

text \<open>
  Object spread \<^verbatim>\<open>{...a, ...b}\<close> copies the own properties of each source in turn
  into a new object, later writes replacing earlier ones.
\<close>

definition assign :: "('k \<times> 'v) list \<Rightarrow> ('k \<times> 'v) list \<Rightarrow> ('k \<times> 'v) list" where
  "assign target src = fold (\<lambda>(k, v). AList.update k v) src target"

text \<open>
  The own enumerable properties of a JSON value, as a spread sees them: those of an
  object; the indices of an array or of the characters of a string; none for a number,
  a boolean or \<^verbatim>\<open>null\<close>.
\<close>

definition indexed :: "'a list \<Rightarrow> (string \<times> 'a) list" where
  "indexed xs = zip (map show_nat [0..<length xs]) xs"

fun own_props :: "json \<Rightarrow> Data" where
  "own_props (JObj kvs) = map (\<lambda>(k, v). (k, J v)) kvs"
| "own_props (JArr xs) = indexed (map J xs)"
| "own_props (JStr s) = indexed (map (\<lambda>c. J (JStr [c])) s)"
| "own_props v = []"

section \<open>Schema mapper\<close>

text \<open>
  The schema is held as \<^verbatim>\<open>any\<close>; its class is not part of the driver. It is either
  an object with a \<^verbatim>\<open>getDefinition\<close> function, whose result is the definition, or the
  definition itself. A definition is an object from field name to type tag: \<open>own\<close> are
  its own enumerable entries, which \<^verbatim>\<open>Object.entries\<close> lists, and \<open>inherited\<close> the
  other property names that \<^verbatim>\<open>key in definition\<close> finds on it, those of its prototype
  chain. An object literal inherits the names of \<^verbatim>\<open>Object.prototype\<close>.
\<close>

datatype defn_obj = Defn (own: "(string \<times> json) list") (inherited: "string list")

definition Object_prototype :: "string list" where
  "Object_prototype =
     [''constructor'', ''__defineGetter__'', ''__defineSetter__'', ''hasOwnProperty'',
      ''__lookupGetter__'', ''__lookupSetter__'', ''isPrototypeOf'', ''propertyIsEnumerable'',
      ''toString'', ''valueOf'', ''__proto__'', ''toLocaleString'']"

definition object_literal :: "(string \<times> json) list \<Rightarrow> defn_obj" where
  "object_literal kvs = Defn kvs Object_prototype"

text \<open>\<^verbatim>\<open>key in definition\<close>\<close>

definition key_in :: "string \<Rightarrow> defn_obj \<Rightarrow> bool" where
  "key_in key d = (key \<in> set (map fst (own d)) \<or> key \<in> set (inherited d))"

datatype schema_obj = WithGetDefinition defn_obj | Plain defn_obj

fun definition_of :: "schema_obj \<Rightarrow> defn_obj" where
  "definition_of (WithGetDefinition d) = d"
| "definition_of (Plain d) = d"

subsection \<open>mapHawiahTypeToSQL\<close>

definition mapHawiahTypeToSQL :: "json \<Rightarrow> string" where
  "mapHawiahTypeToSQL type =
     (let t0 = (case type of
                  JObj kvs \<Rightarrow>
                    (case map_of kvs ''type'' of
                       Some v \<Rightarrow> if truthy_json v then v else type
                     | None \<Rightarrow> type)
                | _ \<Rightarrow> type);
          t = toUpperCase (js_String t0)
      in if str_includes t ''STRING'' \<or> str_includes t ''TEXT'' \<or> str_includes t ''EMAIL''
            \<or> str_includes t ''URL'' \<or> str_includes t ''CHAR'' then ''TEXT''
         else if str_includes t ''UUID'' then ''UUID''
         else if str_includes t ''NUMBER'' then
           (if str_includes t ''INT'' then ''INTEGER''
            else if str_includes t ''BIGINT'' then ''BIGINT''
            else ''REAL'')
         else if str_includes t ''BOOLEAN'' then ''BOOLEAN''
         else if str_includes t ''DATE'' then ''TIMESTAMP''
         else if str_includes t ''JSON'' then ''JSONB''
         else if str_includes t ''BLOB'' then ''BYTEA''
         else ''TEXT'')"

subsection \<open>splitData\<close>

definition reserved :: "string list" where
  "reserved = [''_id'', ''_createdAt'', ''_updatedAt'']"

text \<open>
  \<^verbatim>\<open>obj[key] = value\<close> on an object made by \<^verbatim>\<open>{}\<close>. The key \<^verbatim>\<open>__proto__\<close> is
  the accessor of \<^verbatim>\<open>Object.prototype\<close>: writing it makes no property of the object's
  own.
\<close>

definition put_own :: "string \<Rightarrow> jv \<Rightarrow> Data \<Rightarrow> Data" where
  "put_own key v obj = (if key = ''__proto__'' then obj else AList.update key v obj)"

text \<open>
  One turn of the loop over \<^verbatim>\<open>Object.entries(data)\<close>; the state is the pair
  \<open>(schemaData, extraData)\<close>.
\<close>

definition splitStep :: "defn_obj \<Rightarrow> string \<times> jv \<Rightarrow> Data \<times> Data \<Rightarrow> Data \<times> Data" where
  "splitStep defn kv acc =
     (case kv of (key, v) \<Rightarrow> case acc of (schemaData, extraData) \<Rightarrow>
        if key_in key defn then (put_own key v schemaData, extraData)
        else if key \<notin> set reserved then (schemaData, put_own key v extraData)
        else (schemaData, extraData))"

definition splitData :: "schema_obj option \<Rightarrow> Data \<Rightarrow> Data \<times> Data" where
  "splitData sch data =
     (case sch of
        None \<Rightarrow> ([], data)
      | Some sc \<Rightarrow> fold (splitStep (definition_of sc)) data ([], []))"

subsection \<open>mergeData\<close>

text \<open>
  \<^verbatim>\<open>JSON.parse\<close> belongs to the runtime and is a parameter \<open>parse\<close> of the model:
  \<open>parse s = None\<close> when it throws on the text \<open>s\<close>.

  \<^verbatim>\<open>typeof x === 'object' && x !== null\<close> holds of objects, arrays and dates; a
  date has no own enumerable property.
\<close>

fun is_object :: "jv option \<Rightarrow> bool" where
  "is_object (Some (J (JObj kvs))) = True"
| "is_object (Some (J (JArr xs))) = True"
| "is_object (Some (JDate d)) = True"
| "is_object x = False"

fun own_props_jv :: "jv option \<Rightarrow> Data" where
  "own_props_jv (Some (J v)) = own_props v"
| "own_props_jv x = []"

definition rest_of :: "row \<Rightarrow> Data" where
  "rest_of r = assign [] (filter (\<lambda>(k, v). k \<noteq> ''_extras'') r)"

text \<open>The value of \<^verbatim>\<open>extras\<close>: the properties to lay over the columns.\<close>

definition extras_of :: "(string \<Rightarrow> json option) \<Rightarrow> jv option \<Rightarrow> error + Data" where
  "extras_of parse cell =
     (if is_object cell then Inr (own_props_jv cell)
      else case cell of
             Some (J (JStr s)) \<Rightarrow>
               (case parse s of
                  None \<Rightarrow> Inl SyntaxError
                | Some v \<Rightarrow> Inr (own_props v))
           | _ \<Rightarrow> Inr [])"

definition mergeData :: "(string \<Rightarrow> json option) \<Rightarrow> row \<Rightarrow> error + Data" where
  "mergeData parse r =
     (let rest = rest_of r in
      case extras_of parse (map_of r ''_extras'') of
        Inl e \<Rightarrow> Inl e
      | Inr extras \<Rightarrow> Inr (assign rest extras))"

section \<open>The database behind the pool\<close>

text \<open>
  The driver talks to PostgreSQL only through \<^verbatim>\<open>pool.query(sql, params)\<close>. Each SQL
  text of the source is one constructor of \<open>stmt\<close>, with its parameters; the table is the
  list of its rows in storage order, a row being the column/value pairs written to it.

  What the model takes from the database:
  \<^item> \<^verbatim>\<open>_id\<close> is the primary key (the DDL of \<^verbatim>\<open>connect\<close>): an \<^verbatim>\<open>INSERT\<close> of a key
    that is present fails, as does a statement that names a column twice;
  \<^item> a JSONB cell holds the JSON value of the text sent to it (\<open>JSON_stringify\<close>), and
    every other cell the parameter as it was sent;
  \<^item> \<^verbatim>\<open>WHERE _id = $1\<close> compares the stored key with the text form of the parameter
    (\<open>sql_text\<close>); \<^verbatim>\<open>null\<close> and \<^verbatim>\<open>undefined\<close> are SQL \<^verbatim>\<open>NULL\<close> and match no
    row, and neither does an array, an object or a date, whose text form is no key that
    \<open>generateId\<close> makes.
  \<^verbatim>\<open>CREATE TABLE IF NOT EXISTS\<close> is refused when it names a column twice, as the
  server refuses it on a database that does not have the table yet, and changes no row.
  The model does not tell a table without rows from a table that was never created.
  Columns that an \<^verbatim>\<open>INSERT\<close> does not name, the length bound of \<^verbatim>\<open>VARCHAR(100)\<close>
  and the folding of identifiers are outside the model.
\<close>

datatype stmt =
    CreateTable "(string \<times> string) list"
  | CreateIndex string
  | Insert "string list" "jv list"
  | SelectAll
  | SelectData
  | SelectById "jv option"
  | SelectDataById "jv option"
  | Update "(string \<times> jv) list" "jv option"
  | Delete "jv option"
  | CountAll

fun toJSON :: "jv \<Rightarrow> json" where
  "toJSON (J v) = v"
| "toJSON (JDate d) = JStr (toISOString d)"

definition JSON_stringify :: "Data \<Rightarrow> jv" where
  "JSON_stringify d = J (JObj (map (\<lambda>(k, v). (k, toJSON v)) d))"

fun sql_text :: "jv option \<Rightarrow> string option" where
  "sql_text (Some (J (JStr s))) = Some s"
| "sql_text (Some (J (JNum n))) = Some (show_int n)"
| "sql_text (Some (J (JBool b))) = Some (if b then ''true'' else ''false'')"
| "sql_text p = None"

definition id_matches :: "jv option \<Rightarrow> row \<Rightarrow> bool" where
  "id_matches p r =
     (case sql_text p of
        None \<Rightarrow> False
      | Some s \<Rightarrow> map_of r ''_id'' = Some (J (JStr s)))"

definition project_data :: "row \<Rightarrow> row" where
  "project_data r = (case map_of r ''_data'' of None \<Rightarrow> [] | Some v \<Rightarrow> [(''_data'', v)])"

fun exec :: "stmt \<Rightarrow> row list \<Rightarrow> error + (row list \<times> row list)" where
  "exec (CreateTable cols) t =
     (if \<not> distinct (map fst cols) then Inl QueryFailed else Inr ([], t))"
| "exec (CreateIndex c) t = Inr ([], t)"
| "exec (Insert cols vals) t =
     (let r = zip cols vals in
      if \<not> distinct cols \<or> length cols \<noteq> length vals then Inl QueryFailed
      else if sql_text (map_of r ''_id'') = None then Inl QueryFailed
      else if list_ex (id_matches (map_of r ''_id'')) t then Inl QueryFailed
      else Inr ([], t @ [r]))"
| "exec SelectAll t = Inr (t, t)"
| "exec SelectData t =
     (if list_all (\<lambda>r. map_of r ''_data'' \<noteq> None) t then Inr (map project_data t, t)
      else Inl QueryFailed)"
| "exec (SelectById p) t = Inr (take 1 (filter (id_matches p) t), t)"
| "exec (SelectDataById p) t =
     (if list_all (\<lambda>r. map_of r ''_data'' \<noteq> None) t
      then Inr (map project_data (take 1 (filter (id_matches p) t)), t)
      else Inl QueryFailed)"
| "exec (Update sets p) t =
     (if \<not> distinct (map fst sets) then Inl QueryFailed
      else Inr ([], map (\<lambda>r. if id_matches p r then assign r sets else r) t))"
| "exec (Delete p) t = Inr ([], filter (\<lambda>r. \<not> id_matches p r) t)"
| "exec CountAll t = Inr ([[(''count'', J (JStr (show_nat (length t))))]], t)"

section \<open>Record store\<close>

datatype db_type = Sql | NoSql

text \<open>
  The fields of the driver object, with the table it is bound to and the statements it
  has sent. \<open>pool\<close> says that \<^verbatim>\<open>this.pool\<close> is not \<^verbatim>\<open>null\<close>.
\<close>

record driver =
  pool :: bool
  schema :: "schema_obj option"
  dbType :: db_type
  table :: "row list"
  sent :: "stmt list"

definition pool_query :: "stmt \<Rightarrow> driver \<Rightarrow> (error + row list) \<times> driver" where
  "pool_query q s =
     (case exec q (table s) of
        Inl e \<Rightarrow> (Inl e, s\<lparr>sent := sent s @ [q]\<rparr>)
      | Inr (res, t') \<Rightarrow> (Inr res, s\<lparr>table := t', sent := sent s @ [q]\<rparr>))"

text \<open>\<^verbatim>\<open>this.schema && this.dbType === 'sql'\<close>\<close>

definition hybrid :: "driver \<Rightarrow> bool" where
  "hybrid s = (schema s \<noteq> None \<and> dbType s = Sql)"

definition setSchema :: "schema_obj option \<Rightarrow> driver \<Rightarrow> driver" where
  "setSchema sc s = s\<lparr>schema := sc, dbType := Sql\<rparr>"

definition ensureConnected :: "driver \<Rightarrow> error + unit" where
  "ensureConnected s = (if \<not> pool s then Inl NotConnected else Inr ())"

text \<open>
  \<^verbatim>\<open>generateId\<close> reads the clock (\<^verbatim>\<open>Date.now()\<close>) and the random source
  (\<^verbatim>\<open>Math.random().toString(36)\<close>); both readings are arguments.
  \<^verbatim>\<open>substring(2, 15)\<close> drops two characters and keeps at most thirteen.
\<close>

definition generateId :: "nat \<Rightarrow> string \<Rightarrow> string" where
  "generateId date_now random36 = show_nat date_now @ ''_'' @ take 13 (drop 2 random36)"

subsection \<open>connect, disconnect\<close>

text \<open>
  The columns of the two \<^verbatim>\<open>CREATE TABLE IF NOT EXISTS\<close> statements, each with its
  type; the constraints of the DDL (primary key, not null, the default of
  \<^verbatim>\<open>_extras\<close>) are not part of the column list. The schema columns are the
  entries of \<^verbatim>\<open>Object.entries(definition)\<close>.
\<close>

definition hybrid_columns :: "(string \<times> json) list \<Rightarrow> (string \<times> string) list" where
  "hybrid_columns defn =
     [(''_id'', ''VARCHAR(100)'')]
     @ map (\<lambda>(key, type). (key, mapHawiahTypeToSQL type)) defn
     @ [(''_extras'', ''JSONB''),
        (''_createdAt'', ''TIMESTAMP''),
        (''_updatedAt'', ''TIMESTAMP'')]"

definition document_columns :: "(string \<times> string) list" where
  "document_columns =
     [(''_id'', ''VARCHAR(100)''),
      (''_data'', ''JSONB''),
      (''_createdAt'', ''TIMESTAMP''),
      (''_updatedAt'', ''TIMESTAMP'')]"

definition connect :: "driver \<Rightarrow> (error + unit) \<times> driver" where
  "connect s0 =
     (let s = s0\<lparr>pool := True\<rparr>;
          createTableSQL =
            (case schema s of
               Some sc \<Rightarrow>
                 if dbType s = Sql then CreateTable (hybrid_columns (own (definition_of sc)))
                 else CreateTable document_columns
             | None \<Rightarrow> CreateTable document_columns)
      in case pool_query createTableSQL s of
           (Inl e, s1) \<Rightarrow> (Inl e, s1)
         | (Inr _, s1) \<Rightarrow>
             (case pool_query (CreateIndex ''_createdAt'') s1 of
                (Inl e, s2) \<Rightarrow> (Inl e, s2)
              | (Inr _, s2) \<Rightarrow>
                  (case pool_query (CreateIndex ''_updatedAt'') s2 of
                     (Inl e, s3) \<Rightarrow> (Inl e, s3)
                   | (Inr _, s3) \<Rightarrow> (Inr (), s3))))"

definition disconnect :: "driver \<Rightarrow> driver" where
  "disconnect s = (if pool s then s\<lparr>pool := False\<rparr> else s)"

subsection \<open>set\<close>

text \<open>
  The record that \<^verbatim>\<open>set\<close> builds: \<^verbatim>\<open>{...data, _id, _createdAt, _updatedAt}\<close>.
\<close>

definition new_record :: "Data \<Rightarrow> string \<Rightarrow> date \<Rightarrow> Data" where
  "new_record data id' now =
     assign (assign [] data)
       [(''_id'', J (JStr id')),
        (''_createdAt'', J (JStr (toISOString now))),
        (''_updatedAt'', J (JStr (toISOString now)))]"

definition set_data :: "driver \<Rightarrow> Data \<Rightarrow> nat \<Rightarrow> string \<Rightarrow> date \<Rightarrow> (error + Data) \<times> driver" where
  "set_data s data date_now random36 now =
     (case ensureConnected s of
        Inl e \<Rightarrow> (Inl e, s)
      | Inr _ \<Rightarrow>
          let id' = generateId date_now random36;
              rec = new_record data id' now
          in if hybrid s then
               (case splitData (schema s) rec of
                  (schemaData, extraData) \<Rightarrow>
                    let schemaKeys = map fst schemaData;
                        schemaValues = map snd schemaData;
                        cols = [''_id''] @ schemaKeys @ [''_extras'', ''_createdAt'', ''_updatedAt''];
                        vals = [J (JStr id')] @ schemaValues
                               @ [JSON_stringify extraData, JDate now, JDate now]
                    in case pool_query (Insert cols vals) s of
                         (Inl e, s') \<Rightarrow> (Inl e, s')
                       | (Inr _, s') \<Rightarrow> (Inr rec, s'))
             else
               (case pool_query
                       (Insert [''_id'', ''_data'', ''_createdAt'', ''_updatedAt'']
                               [J (JStr id'), JSON_stringify rec, JDate now, JDate now]) s of
                  (Inl e, s') \<Rightarrow> (Inl e, s')
                | (Inr _, s') \<Rightarrow> (Inr rec, s')))"

subsection \<open>matchesQuery, get\<close>

text \<open>
  \<^verbatim>\<open>record[key] !== value\<close>: primitives are compared by value; an array, an object
  or a date of a record read from the database is never the criterion's own object.
\<close>

fun strict_eq :: "jv option \<Rightarrow> json \<Rightarrow> bool" where
  "strict_eq (Some (J JNull)) JNull = True"
| "strict_eq (Some (J (JBool a))) (JBool b) = (a = b)"
| "strict_eq (Some (J (JNum a))) (JNum b) = (a = b)"
| "strict_eq (Some (J (JStr a))) (JStr b) = (a = b)"
| "strict_eq x y = False"

fun matchesQuery :: "Data \<Rightarrow> Query \<Rightarrow> bool" where
  "matchesQuery rec [] = True"
| "matchesQuery rec ((key, val) # query) =
     (if \<not> strict_eq (map_of rec key) val then False else matchesQuery rec query)"

text \<open>Mapping a function that may throw over the rows stops at the first throw.\<close>

fun map_rows :: "('a \<Rightarrow> error + 'b) \<Rightarrow> 'a list \<Rightarrow> error + 'b list" where
  "map_rows f [] = Inr []"
| "map_rows f (x # xs) =
     (case f x of
        Inl e \<Rightarrow> Inl e
      | Inr y \<Rightarrow> (case map_rows f xs of Inl e \<Rightarrow> Inl e | Inr ys \<Rightarrow> Inr (y # ys)))"

text \<open>
  \<^verbatim>\<open>row._data\<close>: the JSONB cell as the record. Every row the driver writes holds an
  object there; a cell that is no object is read as a record without properties.
\<close>

definition row_data :: "row \<Rightarrow> Data" where
  "row_data r = own_props_jv (map_of r ''_data'')"

definition get :: "(string \<Rightarrow> json option) \<Rightarrow> driver \<Rightarrow> Query \<Rightarrow> (error + Data list) \<times> driver" where
  "get parse s query =
     (case ensureConnected s of
        Inl e \<Rightarrow> (Inl e, s)
      | Inr _ \<Rightarrow>
          if hybrid s then
            (case pool_query SelectAll s of
               (Inl e, s') \<Rightarrow> (Inl e, s')
             | (Inr rows, s') \<Rightarrow>
                 (case map_rows (mergeData parse) rows of
                    Inl e \<Rightarrow> (Inl e, s')
                  | Inr records \<Rightarrow>
                      if length query = 0 then (Inr records, s')
                      else (Inr (filter (\<lambda>rec. matchesQuery rec query) records), s')))
          else
            (case pool_query SelectData s of
               (Inl e, s') \<Rightarrow> (Inl e, s')
             | (Inr rows, s') \<Rightarrow>
                 let allRecords = map row_data rows
                 in if length query = 0 then (Inr allRecords, s')
                    else (Inr (filter (\<lambda>rec. matchesQuery rec query) allRecords), s')))"

subsection \<open>getOne\<close>

definition getOne :: "(string \<Rightarrow> json option) \<Rightarrow> driver \<Rightarrow> Query \<Rightarrow> (error + Data option) \<times> driver" where
  "getOne parse s query =
     (case ensureConnected s of
        Inl e \<Rightarrow> (Inl e, s)
      | Inr _ \<Rightarrow>
          if truthy (map_of query ''_id'') then
            (if hybrid s then
               (case pool_query (SelectById (map_option J (map_of query ''_id''))) s of
                  (Inl e, s') \<Rightarrow> (Inl e, s')
                | (Inr rows, s') \<Rightarrow>
                    (case rows of
                       [] \<Rightarrow> (Inr None, s')
                     | r # _ \<Rightarrow>
                         (case mergeData parse r of
                            Inl e \<Rightarrow> (Inl e, s')
                          | Inr d \<Rightarrow> (Inr (Some d), s'))))
             else
               (case pool_query (SelectDataById (map_option J (map_of query ''_id''))) s of
                  (Inl e, s') \<Rightarrow> (Inl e, s')
                | (Inr rows, s') \<Rightarrow>
                    (case rows of
                       [] \<Rightarrow> (Inr None, s')
                     | r # _ \<Rightarrow> (Inr (Some (row_data r)), s'))))
          else
            (case get parse s query of
               (Inl e, s') \<Rightarrow> (Inl e, s')
             | (Inr results, s') \<Rightarrow>
                 (case results of
                    [] \<Rightarrow> (Inr None, s')
                  | first # _ \<Rightarrow> (Inr (Some first), s'))))"

subsection \<open>update\<close>

text \<open>
  \<^verbatim>\<open>{...record, ...data, _updatedAt: new Date().toISOString()}\<close>. Each record of the
  loop reads the clock twice; \<open>clock n\<close> is the \<open>n\<close>-th reading of one call of
  \<^verbatim>\<open>update\<close>.
\<close>

definition updatedRecord :: "Data \<Rightarrow> Data \<Rightarrow> date \<Rightarrow> Data" where
  "updatedRecord rec data d =
     assign (assign (assign [] rec) data) [(''_updatedAt'', J (JStr (toISOString d)))]"

fun update_loop :: "driver \<Rightarrow> Data \<Rightarrow> (nat \<Rightarrow> date) \<Rightarrow> Data list \<Rightarrow> nat \<Rightarrow> (error + nat) \<times> driver" where
  "update_loop s data clock [] cnt = (Inr cnt, s)"
| "update_loop s data clock (rec # records) cnt =
     (let updated = updatedRecord rec data (clock (2 * cnt));
          now = clock (2 * cnt + 1)
      in if hybrid s then
           (case splitData (schema s) updated of
              (schemaData, extraData) \<Rightarrow>
                let setParts = schemaData
                      @ [(''_extras'', JSON_stringify extraData), (''_updatedAt'', JDate now)]
                in case pool_query (Update setParts (map_of rec ''_id'')) s of
                     (Inl e, s') \<Rightarrow> (Inl e, s')
                   | (Inr _, s') \<Rightarrow> update_loop s' data clock records (cnt + 1))
         else
           (case pool_query
                   (Update [(''_data'', JSON_stringify updated), (''_updatedAt'', JDate now)]
                           (map_of rec ''_id'')) s of
              (Inl e, s') \<Rightarrow> (Inl e, s')
            | (Inr _, s') \<Rightarrow> update_loop s' data clock records (cnt + 1)))"

definition update ::
  "(string \<Rightarrow> json option) \<Rightarrow> driver \<Rightarrow> Query \<Rightarrow> Data \<Rightarrow> (nat \<Rightarrow> date) \<Rightarrow> (error + nat) \<times> driver" where
  "update parse s query data clock =
     (case ensureConnected s of
        Inl e \<Rightarrow> (Inl e, s)
      | Inr _ \<Rightarrow>
          (case get parse s query of
             (Inl e, s') \<Rightarrow> (Inl e, s')
           | (Inr records, s') \<Rightarrow> update_loop s' data clock records 0))"

subsection \<open>delete, exists, count\<close>

fun delete_loop :: "driver \<Rightarrow> Data list \<Rightarrow> nat \<Rightarrow> (error + nat) \<times> driver" where
  "delete_loop s [] cnt = (Inr cnt, s)"
| "delete_loop s (rec # records) cnt =
     (case pool_query (Delete (map_of rec ''_id'')) s of
        (Inl e, s') \<Rightarrow> (Inl e, s')
      | (Inr _, s') \<Rightarrow> delete_loop s' records (cnt + 1))"

definition delete :: "(string \<Rightarrow> json option) \<Rightarrow> driver \<Rightarrow> Query \<Rightarrow> (error + nat) \<times> driver" where
  "delete parse s query =
     (case ensureConnected s of
        Inl e \<Rightarrow> (Inl e, s)
      | Inr _ \<Rightarrow>
          (case get parse s query of
             (Inl e, s') \<Rightarrow> (Inl e, s')
           | (Inr records, s') \<Rightarrow> delete_loop s' records 0))"

definition exists :: "(string \<Rightarrow> json option) \<Rightarrow> driver \<Rightarrow> Query \<Rightarrow> (error + bool) \<times> driver" where
  "exists parse s query =
     (case ensureConnected s of
        Inl e \<Rightarrow> (Inl e, s)
      | Inr _ \<Rightarrow>
          (case getOne parse s query of
             (Inl e, s') \<Rightarrow> (Inl e, s')
           | (Inr result, s') \<Rightarrow> (Inr (result \<noteq> None), s')))"

text \<open>
  \<^verbatim>\<open>parseInt\<close> of a cell: leading blanks, a sign, then decimal digits; \<open>None\<close> is
  \<^verbatim>\<open>NaN\<close>. The count of the database is a decimal text.
\<close>

definition digit_of :: "char \<Rightarrow> nat option" where
  "digit_of c = map_of (zip ''0123456789'' [0..<10]) c"

definition parse_digits :: "string \<Rightarrow> int option" where
  "parse_digits s =
     (let ds = takeWhile (\<lambda>c. digit_of c \<noteq> None) s
      in if ds = [] then None
         else Some (int (foldl (\<lambda>a c. 10 * a + the (digit_of c)) 0 ds)))"

definition parseInt :: "string \<Rightarrow> int option" where
  "parseInt s =
     (case dropWhile (\<lambda>c. c = CHR '' '') s of
        [] \<Rightarrow> None
      | c # cs \<Rightarrow>
          if c = CHR ''-'' then map_option uminus (parse_digits cs)
          else if c = CHR ''+'' then parse_digits cs
          else parse_digits (c # cs))"

definition cell_text :: "jv option \<Rightarrow> string" where
  "cell_text x =
     (case x of
        Some (J v) \<Rightarrow> js_String v
      | Some (JDate d) \<Rightarrow> toISOString d
      | None \<Rightarrow> ''undefined'')"

definition count :: "(string \<Rightarrow> json option) \<Rightarrow> driver \<Rightarrow> Query \<Rightarrow> (error + int option) \<times> driver" where
  "count parse s query =
     (case ensureConnected s of
        Inl e \<Rightarrow> (Inl e, s)
      | Inr _ \<Rightarrow>
          if length query = 0 then
            (case pool_query CountAll s of
               (Inl e, s') \<Rightarrow> (Inl e, s')
             | (Inr rows, s') \<Rightarrow>
                 (case rows of
                    [] \<Rightarrow> (Inl TypeError, s')
                  | r # _ \<Rightarrow> (Inr (parseInt (cell_text (map_of r ''count''))), s')))
          else
            (case get parse s query of
               (Inl e, s') \<Rightarrow> (Inl e, s')
             | (Inr results, s') \<Rightarrow> (Inr (Some (int (length results))), s')))"

section \<open>The driver of the second source file\<close>

text \<open>
  The other source file of the repository holds a driver of the same name that stores
  every record in the \<^verbatim>\<open>_data\<close> column and knows no schema. Its \<^verbatim>\<open>set\<close>,
  \<^verbatim>\<open>get\<close> and \<^verbatim>\<open>update\<close> carry the suffix \<open>_jsonb\<close> here.
\<close>

definition set_jsonb :: "driver \<Rightarrow> Data \<Rightarrow> nat \<Rightarrow> string \<Rightarrow> date \<Rightarrow> (error + Data) \<times> driver" where
  "set_jsonb s data date_now random36 now =
     (case ensureConnected s of
        Inl e \<Rightarrow> (Inl e, s)
      | Inr _ \<Rightarrow>
          let id' = generateId date_now random36;
              rec = new_record data id' now
          in case pool_query
                    (Insert [''_id'', ''_data'', ''_createdAt'', ''_updatedAt'']
                            [J (JStr id'), JSON_stringify rec, JDate now, JDate now]) s of
               (Inl e, s') \<Rightarrow> (Inl e, s')
             | (Inr _, s') \<Rightarrow> (Inr rec, s'))"

definition get_jsonb :: "driver \<Rightarrow> Query \<Rightarrow> (error + Data list) \<times> driver" where
  "get_jsonb s query =
     (case ensureConnected s of
        Inl e \<Rightarrow> (Inl e, s)
      | Inr _ \<Rightarrow>
          (case pool_query SelectData s of
             (Inl e, s') \<Rightarrow> (Inl e, s')
           | (Inr rows, s') \<Rightarrow>
               let allRecords = map row_data rows
               in if length query = 0 then (Inr allRecords, s')
                  else (Inr (filter (\<lambda>rec. matchesQuery rec query) allRecords), s')))"

text \<open>
  \<^verbatim>\<open>updatedRecord._id = record._id\<close> writes the property; where the record has none,
  the written value is \<^verbatim>\<open>undefined\<close>, which \<^verbatim>\<open>JSON.stringify\<close> leaves out.
\<close>

definition put_prop :: "string \<Rightarrow> jv option \<Rightarrow> Data \<Rightarrow> Data" where
  "put_prop k x d = (case x of None \<Rightarrow> AList.delete k d | Some v \<Rightarrow> AList.update k v d)"

definition updatedRecord_jsonb :: "Data \<Rightarrow> Data \<Rightarrow> date \<Rightarrow> Data" where
  "updatedRecord_jsonb rec data d =
     put_prop ''_createdAt'' (map_of rec ''_createdAt'')
       (put_prop ''_id'' (map_of rec ''_id'')
          (assign (assign (assign [] rec) data) [(''_updatedAt'', J (JStr (toISOString d)))]))"

fun update_loop_jsonb :: "driver \<Rightarrow> Data \<Rightarrow> (nat \<Rightarrow> date) \<Rightarrow> Data list \<Rightarrow> nat \<Rightarrow> (error + nat) \<times> driver" where
  "update_loop_jsonb s data clock [] cnt = (Inr cnt, s)"
| "update_loop_jsonb s data clock (rec # records) cnt =
     (let updated = updatedRecord_jsonb rec data (clock (2 * cnt))
      in case pool_query
                (Update [(''_data'', JSON_stringify updated), (''_updatedAt'', JDate (clock (2 * cnt + 1)))]
                        (map_of rec ''_id'')) s of
           (Inl e, s') \<Rightarrow> (Inl e, s')
         | (Inr _, s') \<Rightarrow> update_loop_jsonb s' data clock records (cnt + 1))"

definition update_jsonb :: "driver \<Rightarrow> Query \<Rightarrow> Data \<Rightarrow> (nat \<Rightarrow> date) \<Rightarrow> (error + nat) \<times> driver" where
  "update_jsonb s query data clock =
     (case ensureConnected s of
        Inl e \<Rightarrow> (Inl e, s)
      | Inr _ \<Rightarrow>
          (case get_jsonb s query of
             (Inl e, s') \<Rightarrow> (Inl e, s')
           | (Inr records, s') \<Rightarrow> update_loop_jsonb s' data clock records 0))"

section \<open>Stores to run the driver on\<close>

text \<open>
  The driver as its constructor leaves it. Connected stores without and with a schema
  (the object literal of the specification's scenario), and a store that is not connected.
\<close>

definition new_driver :: driver where
  "new_driver = \<lparr>pool = False, schema = None, dbType = NoSql, table = [], sent = []\<rparr>"

definition doc_store :: driver where
  "doc_store = \<lparr>pool = True, schema = None, dbType = NoSql, table = [], sent = []\<rparr>"

definition hybrid_store :: driver where
  "hybrid_store =
     \<lparr>pool = True,
      schema = Some (Plain (object_literal
                 [(''age'', JStr ''number:integer''), (''email'', JStr ''string'')])),
      dbType = Sql, table = [], sent = []\<rparr>"

definition closed_store :: driver where
  "closed_store = doc_store\<lparr>pool := False\<rparr>"

text \<open>A document store that holds the one record \<^verbatim>\<open>{name: "Al"}\<close>, inserted under the id \<^verbatim>\<open>7_k3\<close>.\<close>

definition al_row :: row where
  "al_row =
     [(''_id'', J (JStr ''7_k3'')),
      (''_data'', J (JObj [(''name'', JStr ''Al''), (''_id'', JStr ''7_k3''),
                          (''_createdAt'', JStr ''T7''), (''_updatedAt'', JStr ''T7'')])),
      (''_createdAt'', JDate (Date 7 ''T7'')),
      (''_updatedAt'', JDate (Date 7 ''T7''))]"

definition al_store :: driver where
  "al_store = doc_store\<lparr>table := [al_row]\<rparr>"

section \<open>Properties\<close>

subsection \<open>Association lists and object spread\<close>

lemma show_nat_digit: "n < 10 \<Longrightarrow> show_nat n = [digit_char n]"
  by (subst show_nat.simps) simp

lemma show_nat_step: "10 \<le> n \<Longrightarrow> show_nat n = show_nat (n div 10) @ [digit_char (n mod 10)]"
  by (subst show_nat.simps) simp

lemma map_of_rev_distinct: "distinct (map fst xs) \<Longrightarrow> map_of (rev xs) = map_of xs"
proof (induction xs)
  case Nil
  then show ?case by simp
next
  case (Cons p xs)
  obtain k v where p: "p = (k, v)" by (cases p)
  from Cons.prems p have notin: "k \<notin> fst ` set xs" and d: "distinct (map fst xs)" by auto
  have "map_of (rev (p # xs)) = map_of [(k, v)] ++ map_of (rev xs)"
    by (simp add: p)
  also have "\<dots> = map_of [(k, v)] ++ map_of xs"
    using Cons.IH d by simp
  also have "\<dots> = map_of (p # xs)"
  proof
    fix x
    from notin have "map_of xs k = None" by (simp add: map_of_eq_None_iff)
    then show "(map_of [(k, v)] ++ map_of xs) x = map_of (p # xs) x"
      by (cases "map_of xs x") (auto simp: p map_add_def)
  qed
  finally show ?case .
qed

lemma map_of_assign: "map_of (assign t s) = map_of t ++ map_of (rev s)"
proof (induction s arbitrary: t)
  case Nil
  then show ?case by (simp add: assign_def)
next
  case (Cons p s)
  obtain k v where p: "p = (k, v)" by (cases p)
  have "assign t (p # s) = assign (AList.update k v t) s"
    by (simp add: assign_def p)
  then have "map_of (assign t (p # s)) = map_of (AList.update k v t) ++ map_of (rev s)"
    by (simp add: Cons.IH)
  also have "\<dots> = (map_of t)(k \<mapsto> v) ++ map_of (rev s)"
    by (simp only: update_conv')
  also have "\<dots> = map_of t ++ map_of (rev (p # s))"
    by (auto simp: p map_add_def fun_eq_iff split: option.splits)
  finally show ?case .
qed

lemma distinct_assign: "distinct (map fst t) \<Longrightarrow> distinct (map fst (assign t s))"
  unfolding assign_def
  by (induction s arbitrary: t) (auto simp: distinct_update)

subsection \<open>The loop of splitData\<close>

lemma map_of_put_own:
  "map_of (put_own k v obj) = (if k = ''__proto__'' then map_of obj else (map_of obj)(k \<mapsto> v))"
  by (simp add: put_own_def update_conv')

lemma distinct_put_own: "distinct (map fst obj) \<Longrightarrow> distinct (map fst (put_own k v obj))"
  by (simp add: put_own_def distinct_update)

lemma splitStep_cases:
  "splitStep defn (k, v) (sd, ed) =
     (if key_in k defn then (put_own k v sd, ed)
      else if k \<notin> set reserved then (sd, put_own k v ed)
      else (sd, ed))"
  by (simp add: splitStep_def)

lemma split_fold_fst:
  "map_of (fst (fold (splitStep defn) data (sd, ed))) =
     map_of sd ++ (map_of (rev data) |` {k. key_in k defn \<and> k \<noteq> ''__proto__''})"
proof (induction data arbitrary: sd ed)
  case Nil
  then show ?case by simp
next
  case (Cons p data)
  obtain k v where p: "p = (k, v)" by (cases p)
  obtain sd1 ed1 where st: "splitStep defn (k, v) (sd, ed) = (sd1, ed1)"
    by (cases "splitStep defn (k, v) (sd, ed)")
  have sd1: "map_of sd1 =
      (if key_in k defn \<and> k \<noteq> ''__proto__'' then (map_of sd)(k \<mapsto> v) else map_of sd)"
    using st by (auto simp: splitStep_cases map_of_put_own split: if_splits)
  have "map_of (fst (fold (splitStep defn) (p # data) (sd, ed))) =
        map_of sd1 ++ (map_of (rev data) |` {k. key_in k defn \<and> k \<noteq> ''__proto__''})"
    by (simp add: p st Cons.IH)
  also have "\<dots> = map_of sd ++ (map_of (rev (p # data)) |` {k. key_in k defn \<and> k \<noteq> ''__proto__''})"
    by (rule ext) (auto simp: sd1 p map_add_def restrict_map_def split: option.splits)
  finally show ?case .
qed

lemma split_fold_snd:
  "map_of (snd (fold (splitStep defn) data (sd, ed))) =
     map_of ed ++ (map_of (rev data)
                    |` {k. \<not> key_in k defn \<and> k \<notin> set reserved \<and> k \<noteq> ''__proto__''})"
proof (induction data arbitrary: sd ed)
  case Nil
  then show ?case by simp
next
  case (Cons p data)
  obtain k v where p: "p = (k, v)" by (cases p)
  obtain sd1 ed1 where st: "splitStep defn (k, v) (sd, ed) = (sd1, ed1)"
    by (cases "splitStep defn (k, v) (sd, ed)")
  have ed1: "map_of ed1 =
      (if \<not> key_in k defn \<and> k \<notin> set reserved \<and> k \<noteq> ''__proto__''
       then (map_of ed)(k \<mapsto> v) else map_of ed)"
    using st by (auto simp: splitStep_cases map_of_put_own split: if_splits)
  have "map_of (snd (fold (splitStep defn) (p # data) (sd, ed))) =
        map_of ed1 ++ (map_of (rev data)
                        |` {k. \<not> key_in k defn \<and> k \<notin> set reserved \<and> k \<noteq> ''__proto__''})"
    by (simp add: p st Cons.IH)
  also have "\<dots> = map_of ed ++ (map_of (rev (p # data))
                        |` {k. \<not> key_in k defn \<and> k \<notin> set reserved \<and> k \<noteq> ''__proto__''})"
    by (rule ext) (auto simp: ed1 p map_add_def restrict_map_def split: option.splits)
  finally show ?case .
qed

lemma splitStep_distinct:
  "distinct (map fst (fst acc)) \<and> distinct (map fst (snd acc)) \<Longrightarrow>
   distinct (map fst (fst (splitStep defn p acc))) \<and> distinct (map fst (snd (splitStep defn p acc)))"
  by (cases p; cases acc) (simp add: splitStep_def distinct_put_own)

lemma split_fold_distinct:
  "distinct (map fst (fst acc)) \<and> distinct (map fst (snd acc)) \<Longrightarrow>
   distinct (map fst (fst (fold (splitStep defn) data acc))) \<and>
   distinct (map fst (snd (fold (splitStep defn) data acc)))"
proof (induction data arbitrary: acc)
  case Nil
  then show ?case by simp
next
  case (Cons p data)
  from Cons.prems have "distinct (map fst (fst (splitStep defn p acc))) \<and>
      distinct (map fst (snd (splitStep defn p acc)))"
    by (rule splitStep_distinct)
  then show ?case
    using Cons.IH by simp
qed

subsection \<open>Type mapping\<close>

lemma str_includes_iff: "str_includes t p \<longleftrightarrow> sublist p t"
  by (induction t) (auto simp: sublist_Cons_right)

lemma includes_BIGINT_INT: "str_includes t ''BIGINT'' \<Longrightarrow> str_includes t ''INT''"
proof -
  assume "str_includes t ''BIGINT''"
  then obtain ps ss where "t = ps @ ''BIGINT'' @ ss"
    by (auto simp: str_includes_iff sublist_def)
  then have "t = (ps @ ''BIG'') @ ''INT'' @ ss" by simp
  then show ?thesis
    unfolding str_includes_iff sublist_def by blast
qed

lemma mapHawiahTypeToSQL_never_BIGINT: "mapHawiahTypeToSQL ty \<noteq> ''BIGINT''"
  by (auto simp: mapHawiahTypeToSQL_def Let_def dest: includes_BIGINT_INT)

lemma mapHawiahTypeToSQL_number_rules:
  assumes "t = toUpperCase tag"
    and "\<not> (str_includes t ''STRING'' \<or> str_includes t ''TEXT'' \<or> str_includes t ''EMAIL''
            \<or> str_includes t ''URL'' \<or> str_includes t ''CHAR'')"
    and "\<not> str_includes t ''UUID''" and "str_includes t ''NUMBER''"
  shows "mapHawiahTypeToSQL (JStr tag) = (if str_includes t ''INT'' then ''INTEGER'' else ''REAL'')"
  using assms by (auto simp: mapHawiahTypeToSQL_def dest: includes_BIGINT_INT)

text \<open>
  Claim C3. The rules are tried in the order of the source, on the upper-cased tag. Among
  the tags that contain \<^verbatim>\<open>number\<close>, the test for \<^verbatim>\<open>INT\<close> comes before the test for
  \<^verbatim>\<open>BIGINT\<close>, and every text that contains \<^verbatim>\<open>BIGINT\<close> contains \<^verbatim>\<open>INT\<close>: the tag
  \<^verbatim>\<open>number:bigint\<close> is mapped to \<^verbatim>\<open>INTEGER\<close>, not to the 64-bit column type the claim
  names (and no tag at all is mapped to \<^verbatim>\<open>BIGINT\<close>, by \<open>mapHawiahTypeToSQL_never_BIGINT\<close>).
\<close>

theorem mapHawiahTypeToSQL_bigint_tag:
  "mapHawiahTypeToSQL (JStr ''number:bigint'') = ''INTEGER''"
  by (simp add: mapHawiahTypeToSQL_def toUpperCase_def upper_char_def)

subsection \<open>Splitting a document\<close>

lemma splitData_maps:
  "map_of (fst (splitData (Some sc) data)) =
     map_of (rev data) |` {k. key_in k (definition_of sc) \<and> k \<noteq> ''__proto__''}"
  "map_of (snd (splitData (Some sc) data)) =
     map_of (rev data)
       |` {k. \<not> key_in k (definition_of sc) \<and> k \<notin> set reserved \<and> k \<noteq> ''__proto__''}"
  by (simp_all add: splitData_def split_fold_fst split_fold_snd)

lemma splitData_distinct:
  "distinct (map fst (fst (splitData (Some sc) data)))"
  "distinct (map fst (snd (splitData (Some sc) data)))"
  using split_fold_distinct[of "([], [])" "definition_of sc" data]
  by (simp_all add: splitData_def)

text \<open>Without a schema the whole document is returned as extras; \<^verbatim>\<open>set\<close> and
  \<^verbatim>\<open>update\<close> call \<open>splitData\<close> only when a schema is present.\<close>

lemma splitData_without_schema: "splitData None data = ([], data)"
  by (simp add: splitData_def)

text \<open>
  What \<open>splitData\<close> does for every document and every definition: an entry goes to
  \<open>schemaData\<close> when \<^verbatim>\<open>key in definition\<close> holds, of an own or of an inherited
  name, and to \<open>extraData\<close> when it does not hold and the key is not reserved; an entry
  under \<^verbatim>\<open>__proto__\<close> goes to neither.
\<close>

lemma splitData_by_key_in:
  assumes "distinct (map fst data)"
  shows "map_of (fst (splitData (Some (Plain d)) data)) =
           map_of data |` {k. key_in k d \<and> k \<noteq> ''__proto__''}
       \<and> map_of (snd (splitData (Some (Plain d)) data)) =
           map_of data |` {k. \<not> key_in k d \<and> k \<notin> set reserved \<and> k \<noteq> ''__proto__''}
       \<and> map_of (fst (splitData (Some (WithGetDefinition d)) data)) =
           map_of data |` {k. key_in k d \<and> k \<noteq> ''__proto__''}
       \<and> map_of (snd (splitData (Some (WithGetDefinition d)) data)) =
           map_of data |` {k. \<not> key_in k d \<and> k \<notin> set reserved \<and> k \<noteq> ''__proto__''}"
proof -
  have rv: "map_of (rev data) = map_of data"
    using assms by (rule map_of_rev_distinct)
  show ?thesis
    by (simp add: splitData_maps rv)
qed

text \<open>
  On the keys that a definition does not inherit the claim's partition holds: for a
  definition without inherited names, a key is in \<open>schemaData\<close> exactly when the
  definition names it.
\<close>

lemma splitData_own_keys_only:
  assumes "distinct (map fst data)" and "inherited d = []" and "''__proto__'' \<notin> fst ` set data"
  shows "map_of (fst (splitData (Some (Plain d)) data)) = map_of data |` (fst ` set (own d))
       \<and> map_of (snd (splitData (Some (Plain d)) data)) =
           map_of data |` (- (fst ` set (own d)) - set reserved)"
proof -
  have np: "map_of data ''__proto__'' = None"
    using assms(3) by (simp add: map_of_eq_None_iff)
  have a: "map_of data |` {k. key_in k d \<and> k \<noteq> ''__proto__''} = map_of data |` (fst ` set (own d))"
    using np by (auto simp: restrict_map_def key_in_def assms(2) fun_eq_iff)
  have b: "map_of data |` {k. \<not> key_in k d \<and> k \<notin> set reserved \<and> k \<noteq> ''__proto__''}
             = map_of data |` (- (fst ` set (own d)) - set reserved)"
    using np by (auto simp: restrict_map_def key_in_def assms(2) fun_eq_iff)
  show ?thesis
    using splitData_by_key_in[OF assms(1), of d] a b by simp
qed

text \<open>
  Claim C1. With the schema of the specification's scenario given as an object literal,
  plain or behind \<^verbatim>\<open>getDefinition\<close>, the document fields \<^verbatim>\<open>toString\<close> and
  \<^verbatim>\<open>constructor\<close> are placed in \<open>schemaData\<close> although the schema does not name them:
  \<^verbatim>\<open>key in definition\<close> holds of every name an object inherits from
  \<^verbatim>\<open>Object.prototype\<close>. With the empty object literal as schema the non-reserved field
  \<^verbatim>\<open>toString\<close> does not end up in \<open>extraData\<close>.
\<close>

theorem splitData_inherited_key:
  "splitData (Some (Plain (object_literal
        [(''age'', JStr ''number:integer''), (''email'', JStr ''string'')])))
      [(''age'', J (JNum 30)), (''toString'', J (JStr ''x'')), (''_id'', J (JStr ''7_k3'')),
       (''nickname'', J (JStr ''Al''))]
     = ([(''age'', J (JNum 30)), (''toString'', J (JStr ''x''))], [(''nickname'', J (JStr ''Al''))])
   \<and> splitData (Some (WithGetDefinition (object_literal
        [(''age'', JStr ''number:integer''), (''email'', JStr ''string'')])))
      [(''age'', J (JNum 30)), (''constructor'', J (JStr ''x'')), (''_id'', J (JStr ''7_k3'')),
       (''nickname'', J (JStr ''Al''))]
     = ([(''age'', J (JNum 30)), (''constructor'', J (JStr ''x''))], [(''nickname'', J (JStr ''Al''))])
   \<and> splitData (Some (Plain (object_literal [])))
      [(''toString'', J (JStr ''x'')), (''nickname'', J (JStr ''Al''))]
     = ([(''toString'', J (JStr ''x''))], [(''nickname'', J (JStr ''Al''))])"
  by (simp add: splitData_def splitStep_def key_in_def put_own_def object_literal_def
        Object_prototype_def reserved_def)

text \<open>
  The columns that \<^verbatim>\<open>connect\<close> creates are the own entries of the definition, so the
  \<^verbatim>\<open>INSERT\<close> of \<^verbatim>\<open>set\<close> names a column \<^verbatim>\<open>toString\<close> that the table was not
  given.
\<close>

lemma hybrid_columns_own:
  "map fst (hybrid_columns (own (object_literal kvs)))
     = ''_id'' # map fst kvs @ [''_extras'', ''_createdAt'', ''_updatedAt'']"
  by (simp add: hybrid_columns_def object_literal_def comp_def case_prod_unfold)

subsection \<open>Merging a row\<close>

lemma rest_of_lookup:
  "distinct (map fst r) \<Longrightarrow> map_of (rest_of r) k = (if k = ''_extras'' then None else map_of r k)"
proof -
  assume d: "distinct (map fst r)"
  have df: "distinct (map fst (filter (\<lambda>(k, v). k \<noteq> ''_extras'') r))"
    using d by (rule distinct_map_filter)
  have e: "map_of (rest_of r) = map_of (filter (\<lambda>(k, v). k \<noteq> ''_extras'') r)"
    unfolding rest_of_def map_of_assign map_of_rev_distinct[OF df] by simp
  have f: "map_of (filter (\<lambda>(k, v). k \<noteq> ''_extras'') r) k = (if k = ''_extras'' then None else map_of r k)"
    by (induction r) auto
  show ?thesis unfolding e f ..
qed

lemma rest_of_distinct: "distinct (map fst (rest_of r))"
  by (simp add: rest_of_def distinct_assign)

lemma map_of_obj_props: "map_of (map (\<lambda>(k, v). (k, J v)) e) k = map_option J (map_of e k)"
  by (induction e) auto

lemma extras_of_simps:
  "extras_of parse None = Inr []"
  "extras_of parse (Some (JDate d)) = Inr []"
  "extras_of parse (Some (J JNull)) = Inr []"
  "extras_of parse (Some (J (JBool b))) = Inr []"
  "extras_of parse (Some (J (JNum n))) = Inr []"
  "extras_of parse (Some (J (JStr s))) =
     (case parse s of None \<Rightarrow> Inl SyntaxError | Some v \<Rightarrow> Inr (own_props v))"
  "extras_of parse (Some (J (JArr xs))) = Inr (own_props (JArr xs))"
  "extras_of parse (Some (J (JObj e))) = Inr (own_props (JObj e))"
  by (simp_all add: extras_of_def)

lemma assign_Nil: "assign t [] = t"
  by (simp add: assign_def)

lemma mergeData_object:
  "map_of r ''_extras'' = Some (J (JObj e)) \<Longrightarrow>
   mergeData parse r = Inr (assign (rest_of r) (own_props (JObj e)))"
  by (simp add: mergeData_def extras_of_simps)

lemma mergeData_string:
  "map_of r ''_extras'' = Some (J (JStr s)) \<Longrightarrow>
   mergeData parse r =
     (case parse s of None \<Rightarrow> Inl SyntaxError | Some v \<Rightarrow> Inr (assign (rest_of r) (own_props v)))"
  by (simp add: mergeData_def extras_of_simps split: option.splits)

lemma extras_of_other:
  "\<not> is_object cell \<Longrightarrow> \<forall>s. cell \<noteq> Some (J (JStr s)) \<Longrightarrow> extras_of parse cell = Inr []"
proof (cases cell)
  case None
  then show ?thesis by (simp add: extras_of_simps)
next
  case (Some x)
  assume a: "\<not> is_object cell" and b: "\<forall>s. cell \<noteq> Some (J (JStr s))"
  show ?thesis
  proof (cases x)
    case (J j)
    show ?thesis
      using a b unfolding Some J by (cases j) (simp_all add: extras_of_simps)
  next
    case (JDate d)
    show ?thesis unfolding Some JDate by (simp add: extras_of_simps)
  qed
qed

lemma mergeData_other:
  "\<not> is_object (map_of r ''_extras'') \<Longrightarrow> \<forall>s. map_of r ''_extras'' \<noteq> Some (J (JStr s)) \<Longrightarrow>
   mergeData parse r = Inr (rest_of r)"
  by (simp add: mergeData_def extras_of_other assign_Nil)

text \<open>
  Claim C2. For a row (each column once) whose \<^verbatim>\<open>_extras\<close> cell is an object, or a
  string that \<^verbatim>\<open>JSON.parse\<close> reads as an object, \<open>mergeData\<close> returns a document in
  which a key of the extras object has the value of the extras object, also when a column
  of that name exists, and every other key but \<^verbatim>\<open>_extras\<close> has the value of its column.
\<close>

theorem mergeData_overlay:
  assumes "distinct (map fst r)" and "distinct (map fst e)"
    and "map_of r ''_extras'' = Some (J (JObj e))
         \<or> (\<exists>s. map_of r ''_extras'' = Some (J (JStr s)) \<and> parse s = Some (JObj e))"
  shows "\<exists>doc. mergeData parse r = Inr doc \<and> distinct (map fst doc) \<and>
           (\<forall>k. map_of doc k =
                  (case map_of e k of
                     Some v \<Rightarrow> Some (J v)
                   | None \<Rightarrow> if k = ''_extras'' then None else map_of r k))"
proof -
  let ?doc = "assign (rest_of r) (own_props (JObj e))"
  have m: "mergeData parse r = Inr ?doc"
    using assms(3) by (auto simp: mergeData_object mergeData_string)
  have de: "distinct (map fst (own_props (JObj e)))"
    using assms(2) by (simp add: comp_def case_prod_unfold)
  have pe: "map_of (rev (own_props (JObj e))) k = map_option J (map_of e k)" for k
    unfolding map_of_rev_distinct[OF de] by (simp add: map_of_obj_props)
  have "map_of ?doc k =
          (case map_of e k of
             Some v \<Rightarrow> Some (J v)
           | None \<Rightarrow> if k = ''_extras'' then None else map_of r k)" for k
    unfolding map_of_assign map_add_def pe rest_of_lookup[OF assms(1)]
    by (cases "map_of e k") simp_all
  then have "\<forall>k. map_of ?doc k =
          (case map_of e k of
             Some v \<Rightarrow> Some (J v)
           | None \<Rightarrow> if k = ''_extras'' then None else map_of r k)"
    by blast
  then show ?thesis
    using m by (simp add: distinct_assign rest_of_distinct)
qed

text \<open>A row whose column \<^verbatim>\<open>age\<close> is also a key of the extras: the extras win.\<close>

theorem mergeData_overlay_witness:
  "mergeData (\<lambda>s. None)
     [(''_id'', J (JStr ''7_k'')), (''age'', J (JNum 30)),
      (''_extras'', J (JObj [(''age'', JNum 31), (''nickname'', JStr ''Al'')]))]
   = Inr [(''_id'', J (JStr ''7_k'')), (''age'', J (JNum 31)), (''nickname'', J (JStr ''Al''))]
   \<and> (\<exists>doc. mergeData (\<lambda>s. None)
         [(''_id'', J (JStr ''7_k'')), (''age'', J (JNum 30)),
          (''_extras'', J (JObj [(''age'', JNum 31), (''nickname'', JStr ''Al'')]))] = Inr doc
        \<and> map_of doc ''age'' = Some (J (JNum 31)) \<and> map_of doc ''_id'' = Some (J (JStr ''7_k'')))"
proof -
  let ?r = "[(''_id'', J (JStr ''7_k'')), (''age'', J (JNum 30)),
      (''_extras'', J (JObj [(''age'', JNum 31), (''nickname'', JStr ''Al'')]))]"
  let ?e = "[(''age'', JNum 31), (''nickname'', JStr ''Al'')]"
  have h1: "distinct (map fst ?r)" by simp
  have h2: "distinct (map fst ?e)" by simp
  have h3: "map_of ?r ''_extras'' = Some (J (JObj ?e))
         \<or> (\<exists>s. map_of ?r ''_extras'' = Some (J (JStr s)) \<and> (\<lambda>s. None) s = Some (JObj ?e))"
    by simp
  from mergeData_overlay[OF h1 h2 h3]
  obtain doc where doc: "mergeData (\<lambda>s. None) ?r = Inr doc"
    and lk: "\<forall>k. map_of doc k =
                  (case map_of ?e k of
                     Some v \<Rightarrow> Some (J v)
                   | None \<Rightarrow> if k = ''_extras'' then None else map_of ?r k)"
    by blast
  have a: "map_of doc ''age'' = Some (J (JNum 31))" using lk by simp
  have b: "map_of doc ''_id'' = Some (J (JStr ''7_k''))" using lk by simp
  have ev: "mergeData (\<lambda>s. None) ?r
     = Inr [(''_id'', J (JStr ''7_k'')), (''age'', J (JNum 31)), (''nickname'', J (JStr ''Al''))]"
    by (simp add: mergeData_def extras_of_simps rest_of_def assign_def)
  show ?thesis using doc a b ev by simp
qed

text \<open>
  Claim C9, amended. When the \<^verbatim>\<open>_extras\<close> cell is neither an object nor a string
  (missing, \<^verbatim>\<open>null\<close>, a number, a boolean), \<open>mergeData\<close> does not fail and returns the
  columns without \<^verbatim>\<open>_extras\<close>. When the cell is a string that \<^verbatim>\<open>JSON.parse\<close>
  rejects, \<open>mergeData\<close> fails with the error of the parser.
\<close>

theorem mergeData_fallback:
  "(\<not> is_object (map_of r ''_extras'') \<and> (\<forall>s. map_of r ''_extras'' \<noteq> Some (J (JStr s)))
      \<longrightarrow> mergeData parse r = Inr (rest_of r))
   \<and> (map_of r ''_extras'' = Some (J (JStr s')) \<and> parse s' = None
      \<longrightarrow> mergeData parse r = Inl SyntaxError)"
  by (simp add: mergeData_other mergeData_string)

text \<open>A \<^verbatim>\<open>null\<close> cell and the cell \<^verbatim>\<open>"{bad"\<close>, for a parser that rejects it.\<close>

theorem mergeData_fallback_witness:
  "mergeData (\<lambda>s. None) [(''name'', J (JStr ''Al'')), (''_extras'', J JNull)]
     = Inr [(''name'', J (JStr ''Al''))]
   \<and> mergeData (\<lambda>s. None) [(''name'', J (JStr ''Al'')), (''_extras'', J (JStr ''{bad''))]
     = Inl SyntaxError"
proof -
  let ?r1 = "[(''name'', J (JStr ''Al'')), (''_extras'', J JNull)]"
  let ?r2 = "[(''name'', J (JStr ''Al'')), (''_extras'', J (JStr ''{bad''))]"
  have a: "\<not> is_object (map_of ?r1 ''_extras'') \<and> (\<forall>s. map_of ?r1 ''_extras'' \<noteq> Some (J (JStr s)))"
    by simp
  have b: "map_of ?r2 ''_extras'' = Some (J (JStr ''{bad'')) \<and> (\<lambda>s. None) ''{bad'' = None"
    by simp
  have c: "rest_of ?r1 = [(''name'', J (JStr ''Al''))]"
    by (simp add: rest_of_def assign_def)
  from mergeData_fallback[of ?r1 "\<lambda>s. None" "[]"] a
  have "mergeData (\<lambda>s. None) ?r1 = Inr (rest_of ?r1)" by blast
  moreover from mergeData_fallback[of ?r2 "\<lambda>s. None" "''{bad''"] b
  have "mergeData (\<lambda>s. None) ?r2 = Inl SyntaxError" by blast
  ultimately show ?thesis using c by simp
qed

text \<open>
  Claim C9 as it is written fails: the cell \<^verbatim>\<open>"{bad"\<close> is neither an object nor a
  parseable string, and \<open>mergeData\<close> throws on the row \<^verbatim>\<open>{name: "Al", _extras: "{bad"}\<close>.
\<close>

theorem mergeData_unparseable_counterexample:
  "\<not> (\<forall>parse r.
         \<not> is_object (map_of r ''_extras'')
         \<and> (\<forall>s. map_of r ''_extras'' = Some (J (JStr s)) \<longrightarrow> parse s = None)
         \<longrightarrow> mergeData parse r = Inr (rest_of r))"
proof
  assume a: "\<forall>parse r.
         \<not> is_object (map_of r ''_extras'')
         \<and> (\<forall>s. map_of r ''_extras'' = Some (J (JStr s)) \<longrightarrow> parse s = None)
         \<longrightarrow> mergeData parse r = Inr (rest_of r)"
  let ?r = "[(''name'', J (JStr ''Al'')), (''_extras'', J (JStr ''{bad''))]"
  let ?p = "\<lambda>s::string. None :: json option"
  have h: "\<not> is_object (map_of ?r ''_extras'')
         \<and> (\<forall>s. map_of ?r ''_extras'' = Some (J (JStr s)) \<longrightarrow> ?p s = None)"
    by simp
  have "mergeData ?p ?r = Inr (rest_of ?r)"
    by (rule a[THEN spec, THEN spec, THEN mp, OF h])
  then show False
    by (simp add: mergeData_def extras_of_simps)
qed

subsection \<open>Running the driver on a store\<close>

lemmas eval_defs =
  set_data_def set_jsonb_def get_def get_jsonb_def getOne_def update_def update_jsonb_def
  delete_def exists_def count_def ensureConnected_def hybrid_def generateId_def
  show_nat_digit show_nat_step digit_char_def new_record_def updatedRecord_def
  updatedRecord_jsonb_def put_prop_def assign_def splitData_def splitStep_def reserved_def
  key_in_def put_own_def object_literal_def Object_prototype_def
  pool_query_def id_matches_def project_data_def row_data_def JSON_stringify_def
  mergeData_def extras_of_def rest_of_def Let_def

subsection \<open>Operations on a store that is not connected\<close>

lemma pool_query_pool: "pool (snd (pool_query q s)) = pool s"
  by (simp add: pool_query_def split: sum.splits prod.splits)

lemma connect_sets_pool: "pool (snd (connect s))"
proof -
  let ?s = "s\<lparr>pool := True\<rparr>"
  have p: "pool ?s" by simp
  obtain q where q: "connect s =
      (case pool_query q ?s of
           (Inl e, s1) \<Rightarrow> (Inl e, s1)
         | (Inr _, s1) \<Rightarrow>
             (case pool_query (CreateIndex ''_createdAt'') s1 of
                (Inl e, s2) \<Rightarrow> (Inl e, s2)
              | (Inr _, s2) \<Rightarrow>
                  (case pool_query (CreateIndex ''_updatedAt'') s2 of
                     (Inl e, s3) \<Rightarrow> (Inl e, s3)
                   | (Inr _, s3) \<Rightarrow> (Inr (), s3))))"
    by (simp add: connect_def Let_def)
  obtain r1 s1 where a: "pool_query q ?s = (r1, s1)"
    by (cases "pool_query q ?s")
  obtain r2 s2 where b: "pool_query (CreateIndex ''_createdAt'') s1 = (r2, s2)"
    by (cases "pool_query (CreateIndex ''_createdAt'') s1")
  obtain r3 s3 where c: "pool_query (CreateIndex ''_updatedAt'') s2 = (r3, s3)"
    by (cases "pool_query (CreateIndex ''_updatedAt'') s2")
  have p1: "pool s1"
    using pool_query_pool[of q ?s] by (simp add: a)
  have p2: "pool s2"
    using pool_query_pool[of "CreateIndex ''_createdAt''" s1] p1 by (simp add: b)
  have p3: "pool s3"
    using pool_query_pool[of "CreateIndex ''_updatedAt''" s2] p2 by (simp add: c)
  show ?thesis
    unfolding q a using p1 p2 p3
    by (cases r1; cases r2; cases r3) (simp_all add: b c)
qed

lemma disconnect_clears_pool: "\<not> pool (disconnect s)"
  by (simp add: disconnect_def)

text \<open>
  Claim C8, amended. The test that every document operation makes is on the pool handle.
  While the handle is null, each of \<^verbatim>\<open>set\<close>, \<^verbatim>\<open>get\<close>, \<^verbatim>\<open>getOne\<close>,
  \<^verbatim>\<open>update\<close>, \<^verbatim>\<open>delete\<close>, \<^verbatim>\<open>exists\<close> and \<^verbatim>\<open>count\<close> (of either source
  file) fails with the not-connected error and leaves the whole state as it was: no
  statement is sent and the table is untouched. The handle is null after
  \<^verbatim>\<open>disconnect\<close>; \<^verbatim>\<open>connect\<close> sets it before it provisions the table and leaves it
  set whether the provisioning succeeds or fails.
\<close>

theorem not_connected:
  assumes "\<not> pool s"
  shows "set_data s data date_now random36 now = (Inl NotConnected, s)
       \<and> get parse s query = (Inl NotConnected, s)
       \<and> getOne parse s query = (Inl NotConnected, s)
       \<and> update parse s query data clock = (Inl NotConnected, s)
       \<and> delete parse s query = (Inl NotConnected, s)
       \<and> exists parse s query = (Inl NotConnected, s)
       \<and> count parse s query = (Inl NotConnected, s)
       \<and> set_jsonb s data date_now random36 now = (Inl NotConnected, s)
       \<and> get_jsonb s query = (Inl NotConnected, s)
       \<and> update_jsonb s query data clock = (Inl NotConnected, s)
       \<and> \<not> pool (disconnect s')
       \<and> pool (snd (connect s'))"
  using assms
  by (simp add: set_data_def get_def getOne_def update_def delete_def exists_def count_def
        set_jsonb_def get_jsonb_def update_jsonb_def ensureConnected_def
        connect_sets_pool disconnect_clears_pool)

text \<open>
  The driver as constructed and the store that is not connected, before and after the
  calls; \<open>al_store\<close> after \<^verbatim>\<open>disconnect\<close>.
\<close>

theorem not_connected_witness:
  "\<not> pool closed_store
   \<and> set_data closed_store [(''name'', J (JStr ''Al''))] 7 ''0.k3'' (Date 7 ''T7'')
       = (Inl NotConnected, closed_store)
   \<and> get Map.empty closed_store [] = (Inl NotConnected, closed_store)
   \<and> getOne Map.empty closed_store [(''_id'', JStr ''7_k3'')] = (Inl NotConnected, closed_store)
   \<and> sent (snd (exists Map.empty closed_store [(''_id'', JStr ''7_k3'')])) = []
   \<and> get Map.empty (disconnect al_store) [] = (Inl NotConnected, disconnect al_store)
   \<and> pool (snd (connect new_driver))"
proof -
  have h: "\<not> pool closed_store"
    by (simp add: closed_store_def doc_store_def)
  have e: "sent closed_store = []"
    by (simp add: closed_store_def doc_store_def)
  have h2: "\<not> pool (disconnect al_store)"
    by (simp add: disconnect_def al_store_def doc_store_def)
  show ?thesis
    using h e
      not_connected[OF h, where data = "[(''name'', J (JStr ''Al''))]" and now = "Date 7 ''T7''"
        and parse = Map.empty and query = "[]" and s' = new_driver]
      not_connected[OF h, where parse = Map.empty and query = "[(''_id'', JStr ''7_k3'')]"]
      not_connected[OF h2, where parse = Map.empty and query = "[]"]
    by simp
qed

text \<open>
  Claim C8 as it is written fails. A driver is given the schema \<^verbatim>\<open>{_id: "string"}\<close> and
  connected to a database that does not have the table yet: the \<^verbatim>\<open>CREATE TABLE\<close> names
  the column \<^verbatim>\<open>_id\<close> twice and is refused, so that \<^verbatim>\<open>connect\<close> fails and the store
  never becomes connected. The pool handle stays set: \<^verbatim>\<open>get\<close> passes the test, sends
  its \<^verbatim>\<open>SELECT\<close> and does not fail with the not-connected error.
\<close>

theorem failed_connect_counterexample:
  "connect (setSchema (Some (Plain (object_literal [(''_id'', JStr ''string'')]))) new_driver)
     = (Inl QueryFailed,
        \<lparr>pool = True, schema = Some (Plain (object_literal [(''_id'', JStr ''string'')])),
           dbType = Sql, table = [],
           sent = [CreateTable [(''_id'', ''VARCHAR(100)''), (''_id'', ''TEXT''),
                                (''_extras'', ''JSONB''), (''_createdAt'', ''TIMESTAMP''),
                                (''_updatedAt'', ''TIMESTAMP'')]]\<rparr>)
   \<and> fst (get Map.empty
            (snd (connect (setSchema (Some (Plain (object_literal [(''_id'', JStr ''string'')])))
                             new_driver))) [])
       \<noteq> Inl NotConnected
   \<and> sent (snd (get Map.empty
            (snd (connect (setSchema (Some (Plain (object_literal [(''_id'', JStr ''string'')])))
                             new_driver))) []))
       = [CreateTable [(''_id'', ''VARCHAR(100)''), (''_id'', ''TEXT''),
                       (''_extras'', ''JSONB''), (''_createdAt'', ''TIMESTAMP''),
                       (''_updatedAt'', ''TIMESTAMP'')],
          SelectAll]"
  by (simp add: connect_def setSchema_def new_driver_def hybrid_columns_def
        mapHawiahTypeToSQL_def toUpperCase_def upper_char_def eval_defs)

subsection \<open>Inserting a record\<close>

lemma pool_query_sent: "sent (snd (pool_query q s)) = sent s @ [q]"
  by (simp add: pool_query_def split: sum.splits prod.splits)

lemma pool_query_Insert_ok:
  assumes "pool_query (Insert cols vals) s = (Inr res, s')"
  shows "distinct cols \<and> length cols = length vals
       \<and> \<not> list_ex (id_matches (map_of (zip cols vals) ''_id'')) (table s)
       \<and> s' = s\<lparr>table := table s @ [zip cols vals], sent := sent s @ [Insert cols vals]\<rparr>"
  using assms
  by (auto simp: pool_query_def Let_def split: if_splits)

lemma map_of_new_record:
  "map_of (new_record data i now) =
     (map_of (rev data))(''_id'' \<mapsto> J (JStr i),
        ''_createdAt'' \<mapsto> J (JStr (toISOString now)),
        ''_updatedAt'' \<mapsto> J (JStr (toISOString now)))"
  by (rule ext) (simp add: new_record_def map_of_assign map_add_def)

lemma generateId_nonempty: "generateId date_now random36 \<noteq> []"
  by (simp add: generateId_def)


lemma map_of_zip_skip:
  "length ks = length vs \<Longrightarrow> k \<notin> set ks \<Longrightarrow>
   map_of (zip (ks @ ks') (vs @ vs')) k = map_of (zip ks' vs') k"
  by (simp add: map_add_def map_of_zip_is_None[THEN iffD2])

lemma set_data_document_mode:
  assumes "\<not> hybrid s" and "set_data s data date_now random36 now = (Inr rec, s')"
  shows "pool s \<and> rec = new_record data (generateId date_now random36) now
       \<and> \<not> list_ex (id_matches (Some (J (JStr (generateId date_now random36))))) (table s)
       \<and> s' = s\<lparr>table := table s @
                 [[(''_id'', J (JStr (generateId date_now random36))),
                   (''_data'', JSON_stringify rec),
                   (''_createdAt'', JDate now), (''_updatedAt'', JDate now)]],
               sent := sent s @
                 [Insert [''_id'', ''_data'', ''_createdAt'', ''_updatedAt'']
                    [J (JStr (generateId date_now random36)), JSON_stringify rec, JDate now, JDate now]]\<rparr>"
proof -
  let ?id = "generateId date_now random36"
  let ?rec = "new_record data ?id now"
  let ?q = "Insert [''_id'', ''_data'', ''_createdAt'', ''_updatedAt'']
              [J (JStr ?id), JSON_stringify ?rec, JDate now, JDate now]"
  from assms have p: "pool s"
    by (auto simp: set_data_def ensureConnected_def split: if_splits)
  obtain res s1 where q: "pool_query ?q s = (res, s1)"
    by (cases "pool_query ?q s")
  from assms p q have r: "res = Inr [] \<or> (\<exists>x. res = Inr x)" and rec: "rec = ?rec" and s1: "s1 = s'"
    by (auto simp: set_data_def ensureConnected_def Let_def split: sum.splits)
  then obtain x where "pool_query ?q s = (Inr x, s')"
    using q by auto
  from pool_query_Insert_ok[OF this] show ?thesis
    using p rec by simp
qed

lemma set_data_hybrid_mode:
  assumes "hybrid s" and "set_data s data date_now random36 now = (Inr rec, s')"
  shows "pool s \<and> rec = new_record data (generateId date_now random36) now
       \<and> distinct (''_id'' # map fst (fst (splitData (schema s) rec))
                     @ [''_extras'', ''_createdAt'', ''_updatedAt''])
       \<and> \<not> list_ex (id_matches (Some (J (JStr (generateId date_now random36))))) (table s)
       \<and> table s' = table s @
             [zip (''_id'' # map fst (fst (splitData (schema s) rec))
                     @ [''_extras'', ''_createdAt'', ''_updatedAt''])
                  (J (JStr (generateId date_now random36)) # map snd (fst (splitData (schema s) rec))
                     @ [JSON_stringify (snd (splitData (schema s) rec)), JDate now, JDate now])]
       \<and> pool s' \<and> schema s' = schema s \<and> dbType s' = dbType s"
proof -
  let ?id = "generateId date_now random36"
  let ?rec = "new_record data ?id now"
  let ?sd = "fst (splitData (schema s) ?rec)"
  let ?ed = "snd (splitData (schema s) ?rec)"
  let ?cols = "''_id'' # map fst ?sd @ [''_extras'', ''_createdAt'', ''_updatedAt'']"
  let ?vals = "J (JStr ?id) # map snd ?sd @ [JSON_stringify ?ed, JDate now, JDate now]"
  from assms have p: "pool s"
    by (auto simp: set_data_def ensureConnected_def split: if_splits)
  obtain res s1 where q: "pool_query (Insert ?cols ?vals) s = (res, s1)"
    by (cases "pool_query (Insert ?cols ?vals) s")
  from assms p q have "(\<exists>x. res = Inr x)" and rec: "rec = ?rec" and s1: "s1 = s'"
    by (auto simp: set_data_def ensureConnected_def Let_def case_prod_unfold split: sum.splits)
  then obtain x where "pool_query (Insert ?cols ?vals) s = (Inr x, s')"
    using q by auto
  from pool_query_Insert_ok[OF this] show ?thesis
    using p rec by simp
qed


lemma new_record_reserved:
  "map_of (new_record data i now) ''_id'' = Some (J (JStr i))"
  "map_of (new_record data i now) ''_createdAt'' = Some (J (JStr (toISOString now)))"
  "map_of (new_record data i now) ''_updatedAt'' = Some (J (JStr (toISOString now)))"
  by (simp_all add: map_of_new_record)

lemma splitData_extras_not_reserved:
  "k \<in> set reserved \<Longrightarrow> k \<notin> fst ` set (snd (splitData (Some sc) d))"
proof -
  assume "k \<in> set reserved"
  then have "map_of (snd (splitData (Some sc) d)) k = None"
    by (simp add: splitData_maps(2) restrict_map_def)
  then show ?thesis
    by (simp add: map_of_eq_None_iff)
qed

text \<open>
  Claim C10. When \<^verbatim>\<open>set\<close> succeeds, the record it returns has the generated id under
  \<^verbatim>\<open>_id\<close> and the ISO text of the one clock reading under \<^verbatim>\<open>_createdAt\<close> and
  \<^verbatim>\<open>_updatedAt\<close>, whatever the input document held under these keys. The table has
  gained one row, whose \<^verbatim>\<open>_id\<close> and timestamp columns hold the same id and clock
  reading; in document mode its \<^verbatim>\<open>_data\<close> cell is the returned record, in hybrid mode
  its \<^verbatim>\<open>_extras\<close> cell holds none of the three reserved keys. The same holds for the
  \<^verbatim>\<open>set\<close> of the second source file.
\<close>

theorem set_reserved_fields:
  "(set_data s data date_now random36 now = (Inr rec, s') \<longrightarrow>
      map_of rec ''_id'' = Some (J (JStr (generateId date_now random36)))
    \<and> map_of rec ''_createdAt'' = Some (J (JStr (toISOString now)))
    \<and> map_of rec ''_updatedAt'' = Some (J (JStr (toISOString now)))
    \<and> (\<exists>r. table s' = table s @ [r]
          \<and> map_of r ''_id'' = Some (J (JStr (generateId date_now random36)))
          \<and> map_of r ''_createdAt'' = Some (JDate now)
          \<and> map_of r ''_updatedAt'' = Some (JDate now)
          \<and> (if hybrid s
              then \<exists>extraData. map_of r ''_extras'' = Some (JSON_stringify extraData)
                     \<and> fst ` set extraData \<inter> set reserved = {}
              else map_of r ''_data'' = Some (JSON_stringify rec))))
   \<and> (set_jsonb s data date_now random36 now = (Inr rec, s') \<longrightarrow>
      map_of rec ''_id'' = Some (J (JStr (generateId date_now random36)))
    \<and> map_of rec ''_createdAt'' = Some (J (JStr (toISOString now)))
    \<and> map_of rec ''_updatedAt'' = Some (J (JStr (toISOString now)))
    \<and> (\<exists>r. table s' = table s @ [r]
          \<and> map_of r ''_id'' = Some (J (JStr (generateId date_now random36)))
          \<and> map_of r ''_createdAt'' = Some (JDate now)
          \<and> map_of r ''_updatedAt'' = Some (JDate now)
          \<and> map_of r ''_data'' = Some (JSON_stringify rec)))"
proof (intro conjI impI)
  let ?id = "generateId date_now random36"
  assume a: "set_data s data date_now random36 now = (Inr rec, s')"
  have rec: "rec = new_record data ?id now"
  proof (cases "hybrid s")
    case True
    from set_data_hybrid_mode[OF True a] show ?thesis by (elim conjE)
  next
    case False
    from set_data_document_mode[OF False a] show ?thesis by (elim conjE)
  qed
  show "map_of rec ''_id'' = Some (J (JStr ?id))"
    and "map_of rec ''_createdAt'' = Some (J (JStr (toISOString now)))"
    and "map_of rec ''_updatedAt'' = Some (J (JStr (toISOString now)))"
    by (simp_all add: rec new_record_reserved)
  show "\<exists>r. table s' = table s @ [r]
          \<and> map_of r ''_id'' = Some (J (JStr ?id))
          \<and> map_of r ''_createdAt'' = Some (JDate now)
          \<and> map_of r ''_updatedAt'' = Some (JDate now)
          \<and> (if hybrid s
              then \<exists>extraData. map_of r ''_extras'' = Some (JSON_stringify extraData)
                     \<and> fst ` set extraData \<inter> set reserved = {}
              else map_of r ''_data'' = Some (JSON_stringify rec))"
  proof (cases "hybrid s")
    case False
    from set_data_document_mode[OF False a]
    have "s' = s\<lparr>table := table s @
                 [[(''_id'', J (JStr ?id)), (''_data'', JSON_stringify rec),
                   (''_createdAt'', JDate now), (''_updatedAt'', JDate now)]],
               sent := sent s @
                 [Insert [''_id'', ''_data'', ''_createdAt'', ''_updatedAt'']
                    [J (JStr ?id), JSON_stringify rec, JDate now, JDate now]]\<rparr>"
      by (elim conjE)
    then have "table s' = table s @
                 [[(''_id'', J (JStr ?id)), (''_data'', JSON_stringify rec),
                   (''_createdAt'', JDate now), (''_updatedAt'', JDate now)]]"
      by simp
    then show ?thesis
      using False by simp
  next
    case True
    then obtain sc where sc: "schema s = Some sc"
      by (auto simp: hybrid_def)
    let ?sd = "fst (splitData (schema s) rec)"
    let ?ed = "snd (splitData (schema s) rec)"
    let ?ks = "map fst ?sd"
    let ?vs = "map snd ?sd"
    let ?r = "zip (''_id'' # ?ks @ [''_extras'', ''_createdAt'', ''_updatedAt''])
                  (J (JStr ?id) # ?vs @ [JSON_stringify ?ed, JDate now, JDate now])"
    from set_data_hybrid_mode[OF True a]
    have d: "distinct (''_id'' # ?ks @ [''_extras'', ''_createdAt'', ''_updatedAt''])"
      by (elim conjE)
    from set_data_hybrid_mode[OF True a]
    have t: "table s' = table s @ [?r]"
      by (elim conjE)
    from d have nk: "''_extras'' \<notin> set ?ks" "''_createdAt'' \<notin> set ?ks" "''_updatedAt'' \<notin> set ?ks"
      by auto
    have len: "length ?ks = length ?vs" by simp
    have r1: "map_of ?r ''_id'' = Some (J (JStr ?id))" by simp
    have r2: "map_of ?r ''_extras'' = Some (JSON_stringify ?ed)"
      using map_of_zip_skip[OF len nk(1), of "[''_extras'', ''_createdAt'', ''_updatedAt'']" 
          "[JSON_stringify ?ed, JDate now, JDate now]"]
      by simp
    have r3: "map_of ?r ''_createdAt'' = Some (JDate now)"
      using map_of_zip_skip[OF len nk(2), of "[''_extras'', ''_createdAt'', ''_updatedAt'']" 
          "[JSON_stringify ?ed, JDate now, JDate now]"]
      by simp
    have r4: "map_of ?r ''_updatedAt'' = Some (JDate now)"
      using map_of_zip_skip[OF len nk(3), of "[''_extras'', ''_createdAt'', ''_updatedAt'']" 
          "[JSON_stringify ?ed, JDate now, JDate now]"]
      by simp
    have "k \<in> set reserved \<Longrightarrow> k \<notin> fst ` set ?ed" for k
      unfolding sc by (rule splitData_extras_not_reserved)
    then have r5: "fst ` set ?ed \<inter> set reserved = {}"
      by blast
    have ex: "\<exists>extraData. map_of ?r ''_extras'' = Some (JSON_stringify extraData)
                     \<and> fst ` set extraData \<inter> set reserved = {}"
      using r2 r5 by (intro exI[of _ ?ed] conjI)
    show ?thesis
      unfolding if_P[OF True] by (rule exI[of _ ?r]) (intro conjI t r1 r3 r4 ex)
  qed
next
  let ?id = "generateId date_now random36"
  assume a: "set_jsonb s data date_now random36 now = (Inr rec, s')"
  let ?rec = "new_record data ?id now"
  let ?q = "Insert [''_id'', ''_data'', ''_createdAt'', ''_updatedAt'']
              [J (JStr ?id), JSON_stringify ?rec, JDate now, JDate now]"
  from a have p: "pool s"
    by (auto simp: set_jsonb_def ensureConnected_def split: if_splits)
  obtain res s1 where q: "pool_query ?q s = (res, s1)"
    by (cases "pool_query ?q s")
  from a p q have "\<exists>x. res = Inr x" and rec: "rec = ?rec" and s1: "s1 = s'"
    by (auto simp: set_jsonb_def ensureConnected_def Let_def split: sum.splits)
  then obtain x where "pool_query ?q s = (Inr x, s')"
    using q by auto
  from pool_query_Insert_ok[OF this]
  have t: "table s' = table s @ [[(''_id'', J (JStr ?id)), (''_data'', JSON_stringify rec),
                   (''_createdAt'', JDate now), (''_updatedAt'', JDate now)]]"
    using rec by simp
  show "map_of rec ''_id'' = Some (J (JStr ?id))"
    and "map_of rec ''_createdAt'' = Some (J (JStr (toISOString now)))"
    and "map_of rec ''_updatedAt'' = Some (J (JStr (toISOString now)))"
    by (simp_all add: rec new_record_reserved)
  show "\<exists>r. table s' = table s @ [r]
          \<and> map_of r ''_id'' = Some (J (JStr ?id))
          \<and> map_of r ''_createdAt'' = Some (JDate now)
          \<and> map_of r ''_updatedAt'' = Some (JDate now)
          \<and> map_of r ''_data'' = Some (JSON_stringify rec)"
    using t by simp
qed


text \<open>Documents that bring their own \<^verbatim>\<open>_id\<close> and \<^verbatim>\<open>_createdAt\<close>.\<close>

theorem set_reserved_fields_witness:
  "(\<exists>rec s'. set_data hybrid_store
        [(''_id'', J (JStr ''mine'')), (''age'', J (JNum 30)), (''_createdAt'', J (JNum 0)),
         (''nickname'', J (JStr ''Al''))] 7 ''0.k3'' (Date 7 ''T7'') = (Inr rec, s')
      \<and> map_of rec ''_id'' = Some (J (JStr ''7_k3''))
      \<and> map_of rec ''_createdAt'' = Some (J (JStr ''T7''))
      \<and> map_of rec ''_updatedAt'' = Some (J (JStr ''T7''))
      \<and> (\<exists>r. table s' = [r]
            \<and> map_of r ''_id'' = Some (J (JStr ''7_k3''))
            \<and> map_of r ''_createdAt'' = Some (JDate (Date 7 ''T7''))
            \<and> map_of r ''_updatedAt'' = Some (JDate (Date 7 ''T7''))))
   \<and> (\<exists>rec s'. set_jsonb doc_store
        [(''_id'', J (JStr ''mine'')), (''name'', J (JStr ''Al''))] 7 ''0.k3'' (Date 7 ''T7'')
          = (Inr rec, s')
      \<and> map_of rec ''_id'' = Some (J (JStr ''7_k3''))
      \<and> (\<exists>r. table s' = [r]
            \<and> map_of r ''_id'' = Some (J (JStr ''7_k3''))
            \<and> map_of r ''_data'' = Some (JSON_stringify rec)))"
proof -
  let ?d1 = "[(''_id'', J (JStr ''mine'')), (''age'', J (JNum 30)), (''_createdAt'', J (JNum 0)),
         (''nickname'', J (JStr ''Al''))]"
  let ?d2 = "[(''_id'', J (JStr ''mine'')), (''name'', J (JStr ''Al''))]"
  obtain rec1 s1 where e1: "set_data hybrid_store ?d1 7 ''0.k3'' (Date 7 ''T7'') = (Inr rec1, s1)"
    by (simp add: eval_defs hybrid_store_def)
  obtain rec2 s2 where e2: "set_jsonb doc_store ?d2 7 ''0.k3'' (Date 7 ''T7'') = (Inr rec2, s2)"
    by (simp add: eval_defs doc_store_def)
  have g: "generateId 7 ''0.k3'' = ''7_k3''"
    by (simp add: generateId_def show_nat_digit digit_char_def)
  have t: "table hybrid_store = []" "table doc_store = []"
    by (simp_all add: hybrid_store_def doc_store_def)
  from set_reserved_fields[THEN conjunct1, THEN mp, OF e1]
  have c1: "map_of rec1 ''_id'' = Some (J (JStr ''7_k3''))
      \<and> map_of rec1 ''_createdAt'' = Some (J (JStr ''T7''))
      \<and> map_of rec1 ''_updatedAt'' = Some (J (JStr ''T7''))
      \<and> (\<exists>r. table s1 = [r]
            \<and> map_of r ''_id'' = Some (J (JStr ''7_k3''))
            \<and> map_of r ''_createdAt'' = Some (JDate (Date 7 ''T7''))
            \<and> map_of r ''_updatedAt'' = Some (JDate (Date 7 ''T7'')))"
    unfolding g t by auto
  from set_reserved_fields[THEN conjunct2, THEN mp, OF e2]
  have c2: "map_of rec2 ''_id'' = Some (J (JStr ''7_k3''))
      \<and> (\<exists>r. table s2 = [r]
            \<and> map_of r ''_id'' = Some (J (JStr ''7_k3''))
            \<and> map_of r ''_data'' = Some (JSON_stringify rec2))"
    unfolding g t by auto
  show ?thesis
    using e1 c1 e2 c2 by blast
qed

text \<open>
  An inherited name in hybrid mode: \<^verbatim>\<open>set\<close> names the column \<^verbatim>\<open>toString\<close> in its
  \<^verbatim>\<open>INSERT\<close>, a column that is not among those \<^verbatim>\<open>connect\<close> creates for the schema.
\<close>

lemma set_names_inherited_column:
  "sent (snd (set_data hybrid_store [(''toString'', J (JStr ''x''))] 7 ''0.k3'' (Date 7 ''T7'')))
     = [Insert [''_id'', ''toString'', ''_extras'', ''_createdAt'', ''_updatedAt'']
          [J (JStr ''7_k3''), J (JStr ''x''), J (JObj []),
           JDate (Date 7 ''T7''), JDate (Date 7 ''T7'')]]
   \<and> ''toString'' \<notin> set (map fst (hybrid_columns (own (object_literal
          [(''age'', JStr ''number:integer''), (''email'', JStr ''string'')]))))"
  by (simp add: eval_defs hybrid_store_def hybrid_columns_def)

subsection \<open>Reading one record\<close>

text \<open>The store \<open>al_store\<close> is what the first \<^verbatim>\<open>set\<close> on an empty table leaves.\<close>

lemma al_store_is_set:
  "set_data doc_store [(''name'', J (JStr ''Al''))] 7 ''0.k3'' (Date 7 ''T7'')
     = (Inr [(''name'', J (JStr ''Al'')), (''_id'', J (JStr ''7_k3'')),
             (''_createdAt'', J (JStr ''T7'')), (''_updatedAt'', J (JStr ''T7''))],
        al_store\<lparr>sent := [Insert [''_id'', ''_data'', ''_createdAt'', ''_updatedAt'']
                     [J (JStr ''7_k3''),
                      J (JObj [(''name'', JStr ''Al''), (''_id'', JStr ''7_k3''),
                          (''_createdAt'', JStr ''T7''), (''_updatedAt'', JStr ''T7'')]),
                      JDate (Date 7 ''T7''), JDate (Date 7 ''T7'')]]\<rparr>)"
  by (simp add: eval_defs doc_store_def al_store_def al_row_def)

lemma take1_filter:
  "take (Suc 0) (filter P xs) = (case find P xs of None \<Rightarrow> [] | Some x \<Rightarrow> [x])"
  by (induction xs) auto

lemma row_data_project: "map_of r ''_data'' \<noteq> None \<Longrightarrow> row_data (project_data r) = row_data r"
  by (auto simp: row_data_def project_data_def)

lemma find_has_data:
  "list_all (\<lambda>r. map_of r ''_data'' \<noteq> None) t \<Longrightarrow> find P t = Some r \<Longrightarrow> map_of r ''_data'' \<noteq> None"
  by (induction t) (auto split: if_splits)

lemma getOne_by_id:
  assumes "pool s" and t: "truthy (map_of query ''_id'')"
  shows "sent (snd (getOne parse s query))
             = sent s @ [if hybrid s then SelectById (map_option J (map_of query ''_id''))
                         else SelectDataById (map_option J (map_of query ''_id''))]
         \<and> table (snd (getOne parse s query)) = table s
         \<and> fst (getOne parse s query)
             = (if hybrid s then
                  (case find (id_matches (map_option J (map_of query ''_id''))) (table s) of
                     None \<Rightarrow> Inr None
                   | Some r \<Rightarrow> (case mergeData parse r of Inl e \<Rightarrow> Inl e | Inr d \<Rightarrow> Inr (Some d)))
                else if list_all (\<lambda>r. map_of r ''_data'' \<noteq> None) (table s) then
                  Inr (map_option row_data
                         (find (id_matches (map_option J (map_of query ''_id''))) (table s)))
                else Inl QueryFailed)"
proof (intro conjI)
  let ?p = "map_option J (map_of query ''_id'')"
  show "sent (snd (getOne parse s query))
             = sent s @ [if hybrid s then SelectById ?p else SelectDataById ?p]"
    using assms
    by (simp add: getOne_def ensureConnected_def pool_query_def take1_filter
          split: option.splits list.splits sum.splits)
  show "table (snd (getOne parse s query)) = table s"
    using assms
    by (simp add: getOne_def ensureConnected_def pool_query_def take1_filter
          split: option.splits list.splits sum.splits)
  show "fst (getOne parse s query)
             = (if hybrid s then
                  (case find (id_matches ?p) (table s) of
                     None \<Rightarrow> Inr None
                   | Some r \<Rightarrow> (case mergeData parse r of Inl e \<Rightarrow> Inl e | Inr d \<Rightarrow> Inr (Some d)))
                else if list_all (\<lambda>r. map_of r ''_data'' \<noteq> None) (table s) then
                  Inr (map_option row_data (find (id_matches ?p) (table s)))
                else Inl QueryFailed)"
  proof (cases "hybrid s")
    case True
    show ?thesis
    proof (cases "find (id_matches ?p) (table s)")
      case None
      then show ?thesis
        using assms True
        by (simp add: getOne_def ensureConnected_def pool_query_def take1_filter)
    next
      case (Some r)
      then show ?thesis
        using assms True
        by (simp add: getOne_def ensureConnected_def pool_query_def take1_filter split: sum.splits)
    qed
  next
    case False
    show ?thesis
    proof (cases "find (id_matches ?p) (table s)")
      case None
      then show ?thesis
        using assms False
        by (simp add: getOne_def ensureConnected_def pool_query_def take1_filter)
    next
      case (Some r)
      then show ?thesis
        using assms False find_has_data[of "table s" "id_matches ?p" r]
        by (auto simp: getOne_def ensureConnected_def pool_query_def take1_filter row_data_project)
    qed
  qed
qed

lemma getOne_by_scan:
  assumes "pool s" and "\<not> truthy (map_of query ''_id'')"
  shows "getOne parse s query
             = (case get parse s query of
                  (Inl e, s') \<Rightarrow> (Inl e, s')
                | (Inr results, s') \<Rightarrow>
                    (case results of [] \<Rightarrow> (Inr None, s') | first # _ \<Rightarrow> (Inr (Some first), s')))"
  using assms
  by (simp add: getOne_def ensureConnected_def split: prod.splits sum.splits list.splits)

text \<open>
  Claim C7, amended. On a connected store, \<^verbatim>\<open>getOne\<close> takes the direct path when the
  criteria hold a truthy \<^verbatim>\<open>_id\<close>: it sends the one by-id statement and no scan, leaves
  the table as it is, and returns the first row of that id (merged in hybrid mode, its
  \<^verbatim>\<open>_data\<close> cell otherwise) or \<^verbatim>\<open>null\<close>. When the criteria hold no \<^verbatim>\<open>_id\<close> or
  a falsy one (\<^verbatim>\<open>""\<close>, \<^verbatim>\<open>0\<close>, \<^verbatim>\<open>false\<close>, \<^verbatim>\<open>null\<close>), it returns the first
  element of \<^verbatim>\<open>get(query)\<close>, or \<^verbatim>\<open>null\<close> when there is none.
\<close>

theorem getOne_paths:
  assumes "pool s"
  shows "(truthy (map_of query ''_id'') \<longrightarrow>
           sent (snd (getOne parse s query))
             = sent s @ [if hybrid s then SelectById (map_option J (map_of query ''_id''))
                         else SelectDataById (map_option J (map_of query ''_id''))]
         \<and> table (snd (getOne parse s query)) = table s
         \<and> fst (getOne parse s query)
             = (if hybrid s then
                  (case find (id_matches (map_option J (map_of query ''_id''))) (table s) of
                     None \<Rightarrow> Inr None
                   | Some r \<Rightarrow> (case mergeData parse r of Inl e \<Rightarrow> Inl e | Inr d \<Rightarrow> Inr (Some d)))
                else if list_all (\<lambda>r. map_of r ''_data'' \<noteq> None) (table s) then
                  Inr (map_option row_data
                         (find (id_matches (map_option J (map_of query ''_id''))) (table s)))
                else Inl QueryFailed))
       \<and> (\<not> truthy (map_of query ''_id'') \<longrightarrow>
           getOne parse s query
             = (case get parse s query of
                  (Inl e, s') \<Rightarrow> (Inl e, s')
                | (Inr results, s') \<Rightarrow>
                    (case results of [] \<Rightarrow> (Inr None, s') | first # _ \<Rightarrow> (Inr (Some first), s'))))"
proof (rule conjI; rule impI)
  assume "truthy (map_of query ''_id'')"
  with assms show "sent (snd (getOne parse s query))
             = sent s @ [if hybrid s then SelectById (map_option J (map_of query ''_id''))
                         else SelectDataById (map_option J (map_of query ''_id''))]
         \<and> table (snd (getOne parse s query)) = table s
         \<and> fst (getOne parse s query)
             = (if hybrid s then
                  (case find (id_matches (map_option J (map_of query ''_id''))) (table s) of
                     None \<Rightarrow> Inr None
                   | Some r \<Rightarrow> (case mergeData parse r of Inl e \<Rightarrow> Inl e | Inr d \<Rightarrow> Inr (Some d)))
                else if list_all (\<lambda>r. map_of r ''_data'' \<noteq> None) (table s) then
                  Inr (map_option row_data
                         (find (id_matches (map_option J (map_of query ''_id''))) (table s)))
                else Inl QueryFailed)"
    by (rule getOne_by_id)
next
  assume "\<not> truthy (map_of query ''_id'')"
  with assms show "getOne parse s query
             = (case get parse s query of
                  (Inl e, s') \<Rightarrow> (Inl e, s')
                | (Inr results, s') \<Rightarrow>
                    (case results of [] \<Rightarrow> (Inr None, s') | first # _ \<Rightarrow> (Inr (Some first), s')))"
    by (rule getOne_by_scan)
qed

text \<open>Both paths on \<open>al_store\<close>: by the id \<^verbatim>\<open>7_k3\<close>, and by the name.\<close>

theorem getOne_paths_witness:
  "pool al_store
   \<and> getOne Map.empty al_store [(''_id'', JStr ''7_k3'')]
       = (Inr (Some [(''name'', J (JStr ''Al'')), (''_id'', J (JStr ''7_k3'')),
                     (''_createdAt'', J (JStr ''T7'')), (''_updatedAt'', J (JStr ''T7''))]),
          al_store\<lparr>sent := [SelectDataById (Some (J (JStr ''7_k3'')))]\<rparr>)
   \<and> sent (snd (getOne Map.empty al_store [(''_id'', JStr ''7_k3'')]))
       = [SelectDataById (Some (J (JStr ''7_k3'')))]
   \<and> getOne Map.empty al_store [(''name'', JStr ''Al'')]
       = (Inr (Some [(''name'', J (JStr ''Al'')), (''_id'', J (JStr ''7_k3'')),
                     (''_createdAt'', J (JStr ''T7'')), (''_updatedAt'', J (JStr ''T7''))]),
          al_store\<lparr>sent := [SelectData]\<rparr>)
   \<and> fst (get Map.empty al_store [(''name'', JStr ''Al'')])
       = Inr [[(''name'', J (JStr ''Al'')), (''_id'', J (JStr ''7_k3'')),
               (''_createdAt'', J (JStr ''T7'')), (''_updatedAt'', J (JStr ''T7''))]]"
proof -
  have p: "pool al_store"
    by (simp add: al_store_def doc_store_def)
  have t1: "truthy (map_of [(''_id'', JStr ''7_k3'')] ''_id'')"
    by simp
  have t2: "\<not> truthy (map_of [(''name'', JStr ''Al'')] ''_id'')"
    by simp
  have g: "get Map.empty al_store [(''name'', JStr ''Al'')]
       = (Inr [[(''name'', J (JStr ''Al'')), (''_id'', J (JStr ''7_k3'')),
               (''_createdAt'', J (JStr ''T7'')), (''_updatedAt'', J (JStr ''T7''))]],
          al_store\<lparr>sent := [SelectData]\<rparr>)"
    by (simp add: eval_defs al_store_def al_row_def doc_store_def)
  have e: "getOne Map.empty al_store [(''_id'', JStr ''7_k3'')]
       = (Inr (Some [(''name'', J (JStr ''Al'')), (''_id'', J (JStr ''7_k3'')),
                     (''_createdAt'', J (JStr ''T7'')), (''_updatedAt'', J (JStr ''T7''))]),
          al_store\<lparr>sent := [SelectDataById (Some (J (JStr ''7_k3'')))]\<rparr>)"
    by (simp add: eval_defs al_store_def al_row_def doc_store_def)
  have s0: "sent al_store = []"
    by (simp add: al_store_def doc_store_def)
  have h: "\<not> hybrid al_store"
    by (simp add: hybrid_def al_store_def doc_store_def)
  from getOne_paths[OF p, of "[(''_id'', JStr ''7_k3'')]" Map.empty, THEN conjunct1, THEN mp, OF t1]
  have a: "sent (snd (getOne Map.empty al_store [(''_id'', JStr ''7_k3'')]))
       = [SelectDataById (Some (J (JStr ''7_k3'')))]"
    using s0 h by simp
  from getOne_paths[OF p, of "[(''name'', JStr ''Al'')]" Map.empty, THEN conjunct2, THEN mp, OF t2]
  have b: "getOne Map.empty al_store [(''name'', JStr ''Al'')]
       = (Inr (Some [(''name'', J (JStr ''Al'')), (''_id'', J (JStr ''7_k3'')),
                     (''_createdAt'', J (JStr ''T7'')), (''_updatedAt'', J (JStr ''T7''))]),
          al_store\<lparr>sent := [SelectData]\<rparr>)"
    by (simp add: g)
  show ?thesis
    using p e a b g by simp
qed

text \<open>
  Claim C7 as it is written fails: the criteria \<^verbatim>\<open>{_id: ""}\<close> contain \<^verbatim>\<open>_id\<close>, and
  \<^verbatim>\<open>getOne\<close> sends the full scan \<^verbatim>\<open>SELECT _data FROM t\<close>, not the lookup by id: the
  guard of the source is \<^verbatim>\<open>if (query._id)\<close>.
\<close>

theorem getOne_falsy_id_counterexample:
  "map_of [(''_id'', JStr '''')] ''_id'' = Some (JStr '''')
   \<and> getOne Map.empty al_store [(''_id'', JStr '''')]
       = (Inr None, al_store\<lparr>sent := [SelectData]\<rparr>)"
  by (simp add: eval_defs al_store_def al_row_def doc_store_def)

subsection \<open>Existence\<close>

text \<open>
  Claim C6. On \<open>al_store\<close>, whose one record has the name \<^verbatim>\<open>Al\<close>, the criteria
  \<^verbatim>\<open>{_id: "7_k3", name: "Bob"}\<close> match no record and \<^verbatim>\<open>get\<close> returns the empty list,
  while \<^verbatim>\<open>exists\<close> returns \<^verbatim>\<open>true\<close>: \<^verbatim>\<open>getOne\<close> looks the id up and never
  compares the other keys.
\<close>

theorem exists_with_id_ignores_criteria:
  "exists Map.empty al_store [(''_id'', JStr ''7_k3''), (''name'', JStr ''Bob'')]
     = (Inr True, al_store\<lparr>sent := [SelectDataById (Some (J (JStr ''7_k3'')))]\<rparr>)
   \<and> get Map.empty al_store [(''_id'', JStr ''7_k3''), (''name'', JStr ''Bob'')]
     = (Inr [], al_store\<lparr>sent := [SelectData]\<rparr>)"
  by (simp add: eval_defs al_store_def al_row_def doc_store_def)

text \<open>Off the by-id path the two agree.\<close>

lemma exists_iff_get_without_id:
  assumes "\<not> truthy (map_of query ''_id'')" and "get parse s query = (Inr results, s')"
  shows "exists parse s query = (Inr (results \<noteq> []), s')"
proof -
  from assms(2) have p: "pool s"
    by (auto simp: get_def ensureConnected_def split: if_splits)
  from getOne_by_scan[OF p assms(1), of parse]
  have "getOne parse s query = (Inr (case results of [] \<Rightarrow> None | x # _ \<Rightarrow> Some x), s')"
    by (simp add: assms(2) split: list.splits)
  then show ?thesis
    using p by (simp add: exists_def ensureConnected_def split: list.splits)
qed


subsection \<open>Updating\<close>

text \<open>
  Claim C5. In document mode the patch \<^verbatim>\<open>{_id: "evil", _createdAt: "T0"}\<close> is spread
  over the record and written back as it is: the stored record of \<open>al_store\<close> has the
  \<^verbatim>\<open>_id\<close> and the \<^verbatim>\<open>_createdAt\<close> of the patch afterwards, not those of the original
  (\<^verbatim>\<open>7_k3\<close>, \<^verbatim>\<open>T7\<close>). The \<^verbatim>\<open>update\<close> of the second source file, which assigns
  both fields from the original before writing, keeps them on the same input.
\<close>

theorem update_overwrites_reserved:
  "update Map.empty al_store [(''name'', JStr ''Al'')]
       [(''_id'', J (JStr ''evil'')), (''_createdAt'', J (JStr ''T0''))] (\<lambda>n. Date 9 ''T9'')
     = (Inr 1,
        al_store\<lparr>table :=
            [[(''_id'', J (JStr ''7_k3'')),
              (''_data'', J (JObj [(''name'', JStr ''Al''), (''_id'', JStr ''evil''),
                                  (''_createdAt'', JStr ''T0''), (''_updatedAt'', JStr ''T9'')])),
              (''_createdAt'', JDate (Date 7 ''T7'')),
              (''_updatedAt'', JDate (Date 9 ''T9''))]],
          sent :=
            [SelectData,
             Update [(''_data'', J (JObj [(''name'', JStr ''Al''), (''_id'', JStr ''evil''),
                                  (''_createdAt'', JStr ''T0''), (''_updatedAt'', JStr ''T9'')])),
                     (''_updatedAt'', JDate (Date 9 ''T9''))]
                    (Some (J (JStr ''7_k3'')))]\<rparr>)
   \<and> fst (get Map.empty
            (snd (update Map.empty al_store [(''name'', JStr ''Al'')]
                    [(''_id'', J (JStr ''evil'')), (''_createdAt'', J (JStr ''T0''))]
                    (\<lambda>n. Date 9 ''T9''))) [])
     = Inr [[(''name'', J (JStr ''Al'')), (''_id'', J (JStr ''evil'')),
             (''_createdAt'', J (JStr ''T0'')), (''_updatedAt'', J (JStr ''T9''))]]"
  by (simp add: eval_defs al_store_def al_row_def doc_store_def)

lemma update_jsonb_keeps_reserved_example:
  "fst (get_jsonb
         (snd (update_jsonb al_store [(''name'', JStr ''Al'')]
                 [(''_id'', J (JStr ''evil'')), (''_createdAt'', J (JStr ''T0''))]
                 (\<lambda>n. Date 9 ''T9''))) [])
     = Inr [[(''name'', J (JStr ''Al'')), (''_id'', J (JStr ''7_k3'')),
             (''_createdAt'', J (JStr ''T7'')), (''_updatedAt'', J (JStr ''T9''))]]"
  by (simp add: eval_defs al_store_def al_row_def doc_store_def)

text \<open>
  What the two versions write back: the second file's record keeps the two fields of the
  original for every patch; the first file's record takes every field of the patch.
\<close>

lemma map_of_put_prop: "map_of (put_prop k x d) = (map_of d)(k := x)"
  by (cases x) (simp_all add: put_prop_def update_conv' delete_conv')

lemma updatedRecord_jsonb_reserved:
  "map_of (updatedRecord_jsonb rec data d) ''_id'' = map_of rec ''_id''"
  "map_of (updatedRecord_jsonb rec data d) ''_createdAt'' = map_of rec ''_createdAt''"
  "map_of (updatedRecord_jsonb rec data d) ''_updatedAt'' = Some (J (JStr (toISOString d)))"
  by (simp_all add: updatedRecord_jsonb_def map_of_put_prop map_of_assign)

lemma updatedRecord_patch_wins:
  "map_of (rev data) k = Some v \<Longrightarrow> k \<noteq> ''_updatedAt'' \<Longrightarrow>
   map_of (updatedRecord rec data d) k = Some v"
  by (simp add: updatedRecord_def map_of_assign map_add_def)

text \<open>
  In hybrid mode the \<^verbatim>\<open>UPDATE\<close> assigns neither \<^verbatim>\<open>_id\<close> nor \<^verbatim>\<open>_createdAt\<close>,
  unless the schema itself names them: \<open>splitData\<close> has dropped both.
\<close>

lemma splitData_schema_keys:
  "\<not> key_in k (definition_of sc) \<Longrightarrow> k \<notin> fst ` set (fst (splitData (Some sc) d))"
proof -
  assume "\<not> key_in k (definition_of sc)"
  then have "map_of (fst (splitData (Some sc) d)) k = None"
    by (simp add: splitData_maps(1) restrict_map_def)
  then show ?thesis
    by (simp add: map_of_eq_None_iff)
qed

lemma update_hybrid_assignments:
  assumes "k = ''_id'' \<or> k = ''_createdAt''" and "\<not> key_in k (definition_of sc)"
  shows "k \<notin> fst ` set (fst (splitData (Some sc) updated) @ [(''_extras'', x), (''_updatedAt'', y)])"
  using assms splitData_schema_keys[of k sc updated] by auto

subsection \<open>Reading back an inserted record\<close>

text \<open>
  Claim C4. In hybrid mode, with the schema and the document of the specification's
  scenario, \<^verbatim>\<open>set\<close> returns a record whose \<^verbatim>\<open>_createdAt\<close> and \<^verbatim>\<open>_updatedAt\<close> are
  ISO strings, and \<^verbatim>\<open>getOne\<close> by the returned id answers with the merged row, whose
  two timestamps are the \<^verbatim>\<open>Date\<close> cells of the timestamp columns: the two documents
  differ.
\<close>

theorem set_getOne_hybrid_differs:
  "fst (set_data hybrid_store
          [(''age'', J (JNum 30)), (''email'', J (JStr ''a@b.com'')), (''nickname'', J (JStr ''Al''))]
          7 ''0.k3'' (Date 7 ''T7''))
     = Inr [(''age'', J (JNum 30)), (''email'', J (JStr ''a@b.com'')), (''nickname'', J (JStr ''Al'')),
            (''_id'', J (JStr ''7_k3'')),
            (''_createdAt'', J (JStr ''T7'')), (''_updatedAt'', J (JStr ''T7''))]
   \<and> fst (getOne Map.empty
            (snd (set_data hybrid_store
                    [(''age'', J (JNum 30)), (''email'', J (JStr ''a@b.com'')),
                     (''nickname'', J (JStr ''Al''))]
                    7 ''0.k3'' (Date 7 ''T7'')))
            [(''_id'', JStr ''7_k3'')])
     = Inr (Some [(''_id'', J (JStr ''7_k3'')), (''age'', J (JNum 30)), (''email'', J (JStr ''a@b.com'')),
                  (''_createdAt'', JDate (Date 7 ''T7'')), (''_updatedAt'', JDate (Date 7 ''T7'')),
                  (''nickname'', J (JStr ''Al''))])"
  by (simp add: eval_defs hybrid_store_def)


text \<open>
  In document mode the claim holds: the record read back by its id is the record
  returned, for every document of JSON values and every document-mode table.
\<close>

lemma find_append_fresh: "\<not> list_ex P xs \<Longrightarrow> find P (xs @ ys) = find P ys"
  by (induction xs) auto

lemma set_update_subset: "set (AList.update k v al) \<subseteq> insert (k, v) (set al)"
  by (induction al) auto

lemma set_assign_subset: "set (assign t src) \<subseteq> set t \<union> set src"
proof (induction src arbitrary: t)
  case Nil
  then show ?case by (simp add: assign_def)
next
  case (Cons p src)
  obtain k v where p: "p = (k, v)" by (cases p)
  have "assign t (p # src) = assign (AList.update k v t) src"
    by (simp add: assign_def p)
  then show ?case
    using Cons.IH[of "AList.update k v t"] set_update_subset[of k v t] by (auto simp: p)
qed

lemma JSON_roundtrip:
  "\<forall>(k, v) \<in> set d. \<exists>j. v = J j \<Longrightarrow> own_props_jv (Some (JSON_stringify d)) = d"
  by (induction d) (auto simp: JSON_stringify_def)

lemma assign_all_values:
  assumes "\<forall>(k, v) \<in> set t. Q v" and "\<forall>(k, v) \<in> set src. Q v"
  shows "\<forall>(k, v) \<in> set (assign t src). Q v"
  using assms set_assign_subset[of t src] by blast

lemma new_record_json:
  assumes "\<forall>(k, v) \<in> set data. \<exists>j. v = J j"
  shows "\<forall>(k, v) \<in> set (new_record data i now). \<exists>j. v = J j"
proof -
  have a: "\<forall>(k, v) \<in> set (assign [] data). \<exists>j. v = J j"
    using assms by (intro assign_all_values) simp_all
  have b: "\<forall>(k, v) \<in> set [(''_id'', J (JStr i)), (''_createdAt'', J (JStr (toISOString now))),
                 (''_updatedAt'', J (JStr (toISOString now)))]. \<exists>j. v = J j"
    by simp
  show ?thesis
    unfolding new_record_def using a b by (rule assign_all_values)
qed

lemma set_getOne_document_mode:
  assumes nh: "\<not> hybrid s"
    and tbl: "list_all (\<lambda>r. map_of r ''_data'' \<noteq> None) (table s)"
    and js: "\<forall>(k, v) \<in> set data. \<exists>j. v = J j"
    and st: "set_data s data date_now random36 now = (Inr rec, s')"
  shows "fst (getOne parse s' [(''_id'', JStr (generateId date_now random36))]) = Inr (Some rec)"
proof -
  let ?id = "generateId date_now random36"
  let ?new = "[(''_id'', J (JStr ?id)), (''_data'', JSON_stringify rec),
               (''_createdAt'', JDate now), (''_updatedAt'', JDate now)]"
  let ?P = "id_matches (Some (J (JStr ?id)))"
  note sd = set_data_document_mode[OF nh st]
  have p: "pool s"
    using sd by (elim conjE)
  have rec: "rec = new_record data ?id now"
    using sd by (elim conjE)
  have fresh: "\<not> list_ex ?P (table s)"
    using sd by (elim conjE)
  have s': "s' = s\<lparr>table := table s @ [?new],
               sent := sent s @
                 [Insert [''_id'', ''_data'', ''_createdAt'', ''_updatedAt'']
                    [J (JStr ?id), JSON_stringify rec, JDate now, JDate now]]\<rparr>"
    using sd by (elim conjE)
  have p': "pool s'" and nh': "\<not> hybrid s'" and t': "table s' = table s @ [?new]"
    using p nh by (simp_all add: s' hybrid_def)
  have tr: "truthy (map_of [(''_id'', JStr ?id)] ''_id'')"
    by (simp add: generateId_nonempty)
  have all: "list_all (\<lambda>r. map_of r ''_data'' \<noteq> None) (table s')"
    using tbl by (simp add: t')
  have "find ?P (table s') = find ?P [?new]"
    unfolding t' using fresh by (rule find_append_fresh)
  also have "\<dots> = Some ?new"
    by (simp add: id_matches_def)
  finally have f: "find ?P (table s') = Some ?new" .
  have rd: "row_data ?new = rec"
    using JSON_roundtrip[of rec] new_record_json[OF js, of ?id now]
    by (simp add: row_data_def rec)
  from getOne_by_id[OF p' tr, of parse]
  have "fst (getOne parse s' [(''_id'', JStr ?id)])
          = (if hybrid s' then
                  (case find (id_matches (map_option J (map_of [(''_id'', JStr ?id)] ''_id''))) (table s') of
                     None \<Rightarrow> Inr None
                   | Some r \<Rightarrow> (case mergeData parse r of Inl e \<Rightarrow> Inl e | Inr d \<Rightarrow> Inr (Some d)))
                else if list_all (\<lambda>r. map_of r ''_data'' \<noteq> None) (table s') then
                  Inr (map_option row_data
                         (find (id_matches (map_option J (map_of [(''_id'', JStr ?id)] ''_id''))) (table s')))
                else Inl QueryFailed)"
    by (elim conjE)
  also have "\<dots> = Inr (map_option row_data (find ?P (table s')))"
    using nh' all by simp
  also have "\<dots> = Inr (Some rec)"
    unfolding f using rd by simp
  finally show ?thesis .
qed

lemma set_data_id_and_timestamps:
  assumes "set_data s data date_now random36 now = (Inr rec, s')"
  shows "map_of rec ''_id'' = Some (J (JStr (generateId date_now random36)))
       \<and> generateId date_now random36 \<noteq> []
       \<and> map_of rec ''_createdAt'' = map_of rec ''_updatedAt''"
proof -
  have rec: "rec = new_record data (generateId date_now random36) now"
  proof (cases "hybrid s")
    case True
    from set_data_hybrid_mode[OF True assms] show ?thesis by (elim conjE)
  next
    case False
    from set_data_document_mode[OF False assms] show ?thesis by (elim conjE)
  qed
  show ?thesis
    by (simp add: rec new_record_reserved generateId_nonempty)
qed


end
